theory Spec2Isabelle
  imports Complex_Main
begin

section \<open>Errors and results\<close>

text \<open>
  Every exception that the Python code raises is a value.  The string carried by an
  error is the message of the raise site, without the interpolated parts.
\<close>

datatype error =
    AssertionError string
  | NotImplementedError
  | RuntimeError string
  | NameError string
  | TypeError string
  | KeyError string
  | ValueError string
  | IndexError string
  | AttributeError string

type_synonym 'a result = "error + 'a"

definition thenR :: "'a result \<Rightarrow> ('a \<Rightarrow> 'b result) \<Rightarrow> 'b result" where
  "thenR r f = (case r of Inl e \<Rightarrow> Inl e | Inr v \<Rightarrow> f v)"

section \<open>Tensor elements\<close>

text \<open>
  A tensor element is a finite number or one of the special values of IEEE arithmetic.
  Finite numbers are exact reals: rounding and overflow are not part of the model, and
  a zero is the positive zero.  The special values are kept because the code divides
  by sums and counts that can be zero.
\<close>

datatype fl = Fin real | PInf | NInf | NaN

fun fneg :: "fl \<Rightarrow> fl" where
  "fneg (Fin a) = Fin (- a)"
| "fneg PInf = NInf"
| "fneg NInf = PInf"
| "fneg NaN = NaN"

fun fadd :: "fl \<Rightarrow> fl \<Rightarrow> fl" where
  "fadd (Fin a) (Fin b) = Fin (a + b)"
| "fadd NaN _ = NaN"
| "fadd _ NaN = NaN"
| "fadd PInf NInf = NaN"
| "fadd NInf PInf = NaN"
| "fadd PInf _ = PInf"
| "fadd _ PInf = PInf"
| "fadd NInf _ = NInf"
| "fadd _ NInf = NInf"

definition fsub :: "fl \<Rightarrow> fl \<Rightarrow> fl" where
  "fsub a b = fadd a (fneg b)"

definition inf_of_sign :: "bool \<Rightarrow> fl" where
  "inf_of_sign positive = (if positive then PInf else NInf)"

fun fmul :: "fl \<Rightarrow> fl \<Rightarrow> fl" where
  "fmul (Fin a) (Fin b) = Fin (a * b)"
| "fmul NaN _ = NaN"
| "fmul _ NaN = NaN"
| "fmul (Fin a) PInf = (if a = 0 then NaN else inf_of_sign (0 < a))"
| "fmul (Fin a) NInf = (if a = 0 then NaN else inf_of_sign (a < 0))"
| "fmul PInf (Fin b) = (if b = 0 then NaN else inf_of_sign (0 < b))"
| "fmul NInf (Fin b) = (if b = 0 then NaN else inf_of_sign (b < 0))"
| "fmul PInf PInf = PInf"
| "fmul NInf NInf = PInf"
| "fmul PInf NInf = NInf"
| "fmul NInf PInf = NInf"

fun fdiv :: "fl \<Rightarrow> fl \<Rightarrow> fl" where
  "fdiv (Fin a) (Fin b) =
     (if b \<noteq> 0 then Fin (a / b)
      else if a = 0 then NaN
      else inf_of_sign (0 < a))"
| "fdiv NaN _ = NaN"
| "fdiv _ NaN = NaN"
| "fdiv (Fin a) PInf = Fin 0"
| "fdiv (Fin a) NInf = Fin 0"
| "fdiv PInf (Fin b) = inf_of_sign (0 \<le> b)"
| "fdiv NInf (Fin b) = inf_of_sign (b < 0)"
| "fdiv PInf PInf = NaN"
| "fdiv PInf NInf = NaN"
| "fdiv NInf PInf = NaN"
| "fdiv NInf NInf = NaN"

fun fabs :: "fl \<Rightarrow> fl" where
  "fabs (Fin a) = Fin \<bar>a\<bar>"
| "fabs PInf = PInf"
| "fabs NInf = PInf"
| "fabs NaN = NaN"

text \<open>Comparison: every comparison with a NaN is false.\<close>

fun flt :: "fl \<Rightarrow> fl \<Rightarrow> bool" where
  "flt (Fin a) (Fin b) = (a < b)"
| "flt NaN _ = False"
| "flt _ NaN = False"
| "flt PInf _ = False"
| "flt _ NInf = False"
| "flt NInf _ = True"
| "flt _ PInf = True"

definition fgt :: "fl \<Rightarrow> fl \<Rightarrow> bool" where
  "fgt a b = flt b a"

fun is_fin :: "fl \<Rightarrow> bool" where
  "is_fin (Fin a) = True"
| "is_fin _ = False"

fun fsum :: "fl list \<Rightarrow> fl" where
  "fsum [] = Fin 0"
| "fsum (x # xs) = fadd x (fsum xs)"

text \<open>\<open>cumsum(dim=0)\<close> of a vector: the running sums, from the left.\<close>

fun cumsum_from :: "fl \<Rightarrow> fl list \<Rightarrow> fl list" where
  "cumsum_from acc [] = []"
| "cumsum_from acc (x # xs) = fadd acc x # cumsum_from (fadd acc x) xs"

definition cumsum :: "fl list \<Rightarrow> fl list" where
  "cumsum xs = cumsum_from (Fin 0) xs"

text \<open>
  Python's \<open>int(t)\<close> on a one-element tensor: truncation towards zero, and an error
  on a value that is not finite.
\<close>

fun py_int :: "fl \<Rightarrow> int result" where
  "py_int (Fin a) = Inr (if 0 \<le> a then \<lfloor>a\<rfloor> else \<lceil>a\<rceil>)"
| "py_int NaN = Inl (ValueError ''cannot convert float NaN to integer'')"
| "py_int _ = Inl (ValueError ''cannot convert float infinity to integer'')"

section \<open>Tensors\<close>

text \<open>
  A vector is a list of elements.  A matrix carries its shape, as a torch tensor does
  (a matrix with no row still has a number of columns), and its elements as a function
  of the row and column index; only the indices inside the shape are meaningful.
\<close>

record tensor2 =
  size0 :: nat
  size1 :: nat
  elem :: "nat \<Rightarrow> nat \<Rightarrow> fl"

definition of_rows :: "nat \<Rightarrow> nat \<Rightarrow> real list list \<Rightarrow> tensor2" where
  "of_rows m n rs = \<lparr>size0 = m, size1 = n, elem = (\<lambda>i j. Fin (rs ! i ! j))\<rparr>"

definition to_rows :: "tensor2 \<Rightarrow> fl list list" where
  "to_rows t = map (\<lambda>i. map (\<lambda>j. elem t i j) [0..<size1 t]) [0..<size0 t]"

definition finite_tensor :: "tensor2 \<Rightarrow> bool" where
  "finite_tensor t =
     list_all (\<lambda>i. list_all (\<lambda>j. is_fin (elem t i j)) [0..<size1 t]) [0..<size0 t]"

text \<open>\<open>a @ b\<close> on matrices; torch raises when the inner sizes differ.\<close>

definition matmul :: "tensor2 \<Rightarrow> tensor2 \<Rightarrow> tensor2 result" where
  "matmul a b =
     (if size1 a \<noteq> size0 b
      then Inl (RuntimeError ''mat1 and mat2 shapes cannot be multiplied'')
      else Inr \<lparr>size0 = size0 a, size1 = size1 b,
                elem = (\<lambda>i j. fsum (map (\<lambda>l. fmul (elem a i l) (elem b l j)) [0..<size1 a]))\<rparr>)"

text \<open>\<open>a @ b\<close> on vectors: the dot product.\<close>

definition dot :: "fl list \<Rightarrow> fl list \<Rightarrow> fl result" where
  "dot a b =
     (if length a \<noteq> length b
      then Inl (RuntimeError ''inconsistent tensor size'')
      else Inr (fsum (map (\<lambda>(p, q). fmul p q) (zip a b))))"

text \<open>
  \<open>t[:, :k]\<close> for a Python integer \<open>k\<close>: a negative bound counts from the end, and
  a bound beyond the shape is clamped.
\<close>

definition slice_cols :: "tensor2 \<Rightarrow> int \<Rightarrow> tensor2" where
  "slice_cols t k =
     t\<lparr>size1 := (if k < 0 then nat (int (size1 t) + k) else min (nat k) (size1 t))\<rparr>"

definition transpose_t :: "tensor2 \<Rightarrow> tensor2" where
  "transpose_t t = \<lparr>size0 = size1 t, size1 = size0 t, elem = (\<lambda>i j. elem t j i)\<rparr>"

text \<open>\<open>v.diag()\<close>: the square matrix with \<open>v\<close> on its diagonal.\<close>

definition diag_t :: "fl list \<Rightarrow> tensor2" where
  "diag_t v = \<lparr>size0 = length v, size1 = length v,
               elem = (\<lambda>i j. if i = j then v ! i else Fin 0)\<rparr>"

definition reciprocal :: "fl list \<Rightarrow> fl list" where
  "reciprocal v = map (\<lambda>s. fdiv (Fin 1) s) v"

section \<open>The library's decomposition\<close>

text \<open>
  \<open>torch.svd\<close> belongs to the library, not to the repository: the functions below take
  it as the parameter \<open>svd\<close>.  It returns the left basis, the singular values and
  the right basis, or raises.
\<close>

type_synonym svd_fn = "tensor2 \<Rightarrow> (tensor2 \<times> fl list \<times> tensor2) result"

section \<open>\<open>svd_reduction\<close> (both source files)\<close>

text \<open>
  \<^verbatim>\<open>
  def svd_reduction(tensor, accept_rate=0.99):
      left, diag, right = torch.svd(tensor)
      full = diag.abs().sum()
      ratio = diag.abs().cumsum(dim=0) / full
      num = torch.where(ratio < accept_rate,
                        torch.ones(1).to(ratio.device),
                        torch.zeros(1).to(ratio.device)
                        ).sum()
      return tensor @ right[:, :int(num)]
  \<close>
\<close>

definition energy_ratio :: "fl list \<Rightarrow> fl list" where
  "energy_ratio diag =
     (let full = fsum (map fabs diag)
      in map (\<lambda>c. fdiv c full) (cumsum (map fabs diag)))"

definition retained_num :: "fl list \<Rightarrow> real \<Rightarrow> fl" where
  "retained_num diag accept_rate =
     fsum (map (\<lambda>q. if flt q (Fin accept_rate) then Fin 1 else Fin 0) (energy_ratio diag))"

definition svd_reduction :: "svd_fn \<Rightarrow> tensor2 \<Rightarrow> real \<Rightarrow> tensor2 result" where
  "svd_reduction svd tensor accept_rate =
     thenR (svd tensor) (\<lambda>(left, diag, right).
     thenR (py_int (retained_num diag accept_rate)) (\<lambda>num.
     matmul tensor (slice_cols right num)))"

definition default_accept_rate :: real where
  "default_accept_rate = 99 / 100"

section \<open>Canonical correlation analysis\<close>

text \<open>
  \<^verbatim>\<open>
  def zero_mean(tensor, dim):
      return tensor - tensor.mean(dim=dim, keepdim=True)
  \<close>
  The mean over an empty dimension is \<open>0 / 0\<close>.
\<close>

definition zero_mean :: "tensor2 \<Rightarrow> int \<Rightarrow> tensor2 result" where
  "zero_mean tensor axis =
     (if axis = 0 \<or> axis = - 2 then
        Inr (tensor\<lparr>elem := (\<lambda>i j. fsub (elem tensor i j)
               (fdiv (fsum (map (\<lambda>r. elem tensor r j) [0..<size0 tensor]))
                     (Fin (real (size0 tensor)))))\<rparr>)
      else if axis = 1 \<or> axis = - 1 then
        Inr (tensor\<lparr>elem := (\<lambda>i j. fsub (elem tensor i j)
               (fdiv (fsum (map (\<lambda>c. elem tensor i c) [0..<size1 tensor]))
                     (Fin (real (size1 tensor)))))\<rparr>)
      else Inl (IndexError ''Dimension out of range''))"

text \<open>
  \<open>_svd_cca\<close> is the same computation in both files (the package version wraps the
  third decomposition in a \<open>try\<close> that raises the error again):
  \<^verbatim>\<open>
  def _svd_cca(x, y):
      u_1, s_1, v_1 = x.svd()
      u_2, s_2, v_2 = y.svd()
      u, diag, v = (u_1.t() @ u_2).svd()
      a = v_1 @ s_1.reciprocal().diag() @ u
      b = v_2 @ s_2.reciprocal().diag() @ v
      return a, b, diag
  \<close>
\<close>

definition svd_cca :: "svd_fn \<Rightarrow> tensor2 \<Rightarrow> tensor2 \<Rightarrow> (tensor2 \<times> tensor2 \<times> fl list) result" where
  "svd_cca svd x y =
     thenR (svd x) (\<lambda>(u_1, s_1, v_1).
     thenR (svd y) (\<lambda>(u_2, s_2, v_2).
     thenR (matmul (transpose_t u_1) u_2) (\<lambda>uu.
     thenR (svd uu) (\<lambda>(u, diag, v).
     thenR (thenR (matmul v_1 (diag_t (reciprocal s_1))) (\<lambda>m. matmul m u)) (\<lambda>a.
     thenR (thenR (matmul v_2 (diag_t (reciprocal s_2))) (\<lambda>m. matmul m v)) (\<lambda>b.
     Inr (a, b, diag)))))))"

text \<open>\<open>_qr_cca\<close> of \<^verbatim>\<open>src/cca.py\<close>: \<^verbatim>\<open>raise NotImplementedError\<close>.\<close>

definition qr_cca :: "tensor2 \<Rightarrow> tensor2 \<Rightarrow> (tensor2 \<times> tensor2 \<times> fl list) result" where
  "qr_cca x y = Inl NotImplementedError"

text \<open>
  \<open>_cca\<close> of the package, \<^verbatim>\<open>cca/cca.py\<close> (here \<open>underscore_cca\<close>):
  \<^verbatim>\<open>
  def _cca(x, y, method):
      assert x.size(0) == y.size(0), f"Number of data needs to be same but {x.size(0)} and {y.size(0)}"
      assert x.size(0) >= x.size(1) and y.size(0) >= y.size(1), f"data[0] should be larger than data[1]"
      assert method in ("svd", "qr"), "Unknown method"
      x = zero_mean(x, dim=0)
      y = zero_mean(y, dim=0)
      return _svd_cca(x, y)
  \<close>
\<close>

definition underscore_cca ::
  "svd_fn \<Rightarrow> tensor2 \<Rightarrow> tensor2 \<Rightarrow> string \<Rightarrow> (tensor2 \<times> tensor2 \<times> fl list) result" where
  "underscore_cca svd x y method =
     (if size0 x \<noteq> size0 y then Inl (AssertionError ''Number of data needs to be same'')
      else if \<not> (size0 x \<ge> size1 x \<and> size0 y \<ge> size1 y)
        then Inl (AssertionError ''data[0] should be larger than data[1]'')
      else if method \<notin> {''svd'', ''qr''} then Inl (AssertionError ''Unknown method'')
      else thenR (zero_mean x 0) (\<lambda>x.
           thenR (zero_mean y 0) (\<lambda>y.
           svd_cca svd x y)))"

text \<open>
  \<open>cca\<close> of \<^verbatim>\<open>src/cca.py\<close>:
  \<^verbatim>\<open>
  def cca(x, y, method):
      assert x.size(0) == y.size(0), f"Number of data needs to be same but {x.size(0)} and {y.size(0)}"
      assert method in ("svd", "qr"), "Unknown method"
      x = zero_mean(x, dim=0)
      y = zero_mean(y, dim=0)
      return _svd_cca(x, y) if method == "svd" else _qr_cca(x, y)
  \<close>
\<close>

definition cca ::
  "svd_fn \<Rightarrow> tensor2 \<Rightarrow> tensor2 \<Rightarrow> string \<Rightarrow> (tensor2 \<times> tensor2 \<times> fl list) result" where
  "cca svd x y method =
     (if size0 x \<noteq> size0 y then Inl (AssertionError ''Number of data needs to be same'')
      else if method \<notin> {''svd'', ''qr''} then Inl (AssertionError ''Unknown method'')
      else thenR (zero_mean x 0) (\<lambda>x.
           thenR (zero_mean y 0) (\<lambda>y.
           if method = ''svd'' then svd_cca svd x y else qr_cca x y)))"

section \<open>The two distances\<close>

text \<open>
  The package, \<^verbatim>\<open>cca/cca.py\<close>:
  \<^verbatim>\<open>
  def svcca_distance(x, y, method="svd"):
      x = svd_reduction(x)
      y = svd_reduction(y)
      div = min(x.size(1), y.size(1))
      a, b, diag = _cca(x, y, method=method)
      return 1 - diag.sum() / div
  \<close>
\<close>

definition svcca_distance :: "svd_fn \<Rightarrow> tensor2 \<Rightarrow> tensor2 \<Rightarrow> string \<Rightarrow> fl result" where
  "svcca_distance svd x y method =
     thenR (svd_reduction svd x default_accept_rate) (\<lambda>x.
     thenR (svd_reduction svd y default_accept_rate) (\<lambda>y.
     let divisor = min (size1 x) (size1 y) in
     thenR (underscore_cca svd x y method) (\<lambda>(a, b, diag).
     Inr (fsub (Fin 1) (fdiv (fsum diag) (Fin (real divisor)))))))"

text \<open>
  \<^verbatim>\<open>src/cca.py\<close> divides by the number of positive correlations:
  \<^verbatim>\<open>
  def svcca_distance(x, y, method="svd"):
      x = svd_reduction(x)
      y = svd_reduction(y)
      a, b, diag = cca(x, y, method=method)
      return 1 - diag.sum() / (diag > 0).sum().item()
  \<close>
\<close>

definition svcca_distance_src :: "svd_fn \<Rightarrow> tensor2 \<Rightarrow> tensor2 \<Rightarrow> string \<Rightarrow> fl result" where
  "svcca_distance_src svd x y method =
     thenR (svd_reduction svd x default_accept_rate) (\<lambda>x.
     thenR (svd_reduction svd y default_accept_rate) (\<lambda>y.
     thenR (cca svd x y method) (\<lambda>(a, b, diag).
     Inr (fsub (Fin 1)
            (fdiv (fsum diag) (Fin (real (length (filter (\<lambda>d. fgt d (Fin 0)) diag)))))))))"

text \<open>
  The package:
  \<^verbatim>\<open>
  def pwcca_distance(x, y, method="svd"):
      a, b, diag = _cca(x, y, method=method)
      alpha = (x @ a).abs().sum(dim=0)
      alpha = alpha / alpha.sum()
      return 1 - alpha @ diag
  \<close>
  \<open>x\<close> in the second line is the argument itself, not its centred copy.
\<close>

definition abs_column_sums :: "tensor2 \<Rightarrow> fl list" where
  "abs_column_sums t =
     map (\<lambda>j. fsum (map (\<lambda>i. fabs (elem t i j)) [0..<size0 t])) [0..<size1 t]"

definition normalise :: "fl list \<Rightarrow> fl list" where
  "normalise alpha = map (\<lambda>c. fdiv c (fsum alpha)) alpha"

definition pwcca_distance :: "svd_fn \<Rightarrow> tensor2 \<Rightarrow> tensor2 \<Rightarrow> string \<Rightarrow> fl result" where
  "pwcca_distance svd x y method =
     thenR (underscore_cca svd x y method) (\<lambda>(a, b, diag).
     thenR (matmul x a) (\<lambda>xa.
     let alpha = abs_column_sums xa;
         alpha = normalise alpha in
     thenR (dot alpha diag) (\<lambda>d.
     Inr (fsub (Fin 1) d))))"


section \<open>Convolutional feature maps\<close>

text \<open>A feature map has the shape (batch, channel, height, width).\<close>

record tensor4 =
  shape4 :: "nat \<times> nat \<times> nat \<times> nat"
  elem4 :: "nat \<Rightarrow> nat \<Rightarrow> nat \<Rightarrow> nat \<Rightarrow> fl"

text \<open>
  Python orders tuples lexicographically: \<open>(a, b) > (c, d)\<close> holds when \<open>a > c\<close>,
  or when \<open>a = c\<close> and \<open>b > d\<close>.
\<close>

definition tuple_gt :: "int \<times> int \<Rightarrow> int \<times> int \<Rightarrow> bool" where
  "tuple_gt p q = (fst p > fst q \<or> (fst p = fst q \<and> snd p > snd q))"

text \<open>
  \<open>tensor.reshape(b, c, -1).permute(2, 0, 1)\<close>: the elements are regrouped in
  row-major order into \<open>b\<close> times \<open>c\<close> rows, and the result is one (b, c) matrix
  for each position in a row.  The library raises when the last dimension cannot be
  inferred.
\<close>

definition flat_elem :: "tensor4 \<Rightarrow> nat \<Rightarrow> fl" where
  "flat_elem tensor f =
     (case shape4 tensor of (b, c, h, w) \<Rightarrow>
        elem4 tensor (f div (c * h * w)) ((f div (h * w)) mod c) ((f div w) mod h) (f mod w))"

definition reshape_permute :: "nat \<Rightarrow> nat \<Rightarrow> tensor4 \<Rightarrow> tensor2 list result" where
  "reshape_permute b c tensor =
     (case shape4 tensor of (b', c', h, w) \<Rightarrow>
        let total = b' * c' * h * w in
        if b * c = 0 \<or> total mod (b * c) \<noteq> 0
        then Inl (RuntimeError ''shape is invalid for input'')
        else let locations = total div (b * c) in
             Inr (map (\<lambda>l. \<lparr>size0 = b, size1 = c,
                               elem = (\<lambda>i j. flat_elem tensor ((i * c + j) * locations + l))\<rparr>)
                   [0..<locations]))"

text \<open>
  \<open>F.adaptive_avg_pool2d\<close> belongs to the library and is the parameter \<open>pool\<close>.
  \<^verbatim>\<open>
  def _conv2d_reshape(tensor, size):
      b, c, h, w = tensor.shape
      if size is not None:
          if (size, size) > (h, w):
              raise RuntimeError(f"`size` should be smaller than the tensor's size but ({h}, {w})")
          tensor = F.adaptive_avg_pool2d(tensor, size)
      tensor = tensor.reshape(b, c, -1).permute(2, 0, 1)
      return tensor
  \<close>
\<close>

type_synonym pool_fn = "tensor4 \<Rightarrow> int \<Rightarrow> tensor4 result"

definition size_error :: error where
  "size_error = RuntimeError ''`size` should be smaller than the tensor's size''"

definition conv2d_reshape :: "pool_fn \<Rightarrow> tensor4 \<Rightarrow> int option \<Rightarrow> tensor2 list result" where
  "conv2d_reshape pool tensor size_opt =
     (case shape4 tensor of (b, c, h, w) \<Rightarrow>
        (case size_opt of
           None \<Rightarrow> reshape_permute b c tensor
         | Some sz \<Rightarrow>
             if tuple_gt (sz, sz) (int h, int w) then Inl size_error
             else thenR (pool tensor sz) (\<lambda>tensor. reshape_permute b c tensor)))"

section \<open>The capture of a layer's output\<close>

text \<open>
  A module of the model has a class, attributes (an attribute can hold \<open>None\<close>) and
  forward hooks.  The only hooks the code registers are closures that store the output
  under a key, so a hook is identified with its key.  The model is its registry of named
  modules, which has one module for each name.
\<close>

datatype module_class = Conv2d | Linear | OtherClass string

record 't module =
  module_class :: module_class
  attrs :: "string \<rightharpoonup> 't option"
  forward_hooks :: "string list"

type_synonym 't model = "string \<rightharpoonup> 't module"

datatype distance_function = Svcca_distance | Pwcca_distance | OtherFunction string

datatype cca_distance_arg = Str string | Fun distance_function

record ccahook =
  name :: string
  key :: string
  cca_distance :: distance_function
  cpu :: bool

definition supported_modules :: "module_class list" where
  "supported_modules = [Conv2d, Linear]"

definition cca_distance_function :: "string \<rightharpoonup> distance_function" where
  "cca_distance_function = [''svcca'' \<mapsto> Svcca_distance, ''pwcca'' \<mapsto> Pwcca_distance]"

definition setattr :: "'t model \<Rightarrow> string \<Rightarrow> string \<Rightarrow> 't option \<Rightarrow> 't model" where
  "setattr model n k v =
     (case model n of
        None \<Rightarrow> model
      | Some m \<Rightarrow> model(n \<mapsto> m\<lparr>attrs := (attrs m)(k \<mapsto> v)\<rparr>))"

definition register_hook :: "'t model \<Rightarrow> string \<Rightarrow> string \<Rightarrow> 't model" where
  "register_hook model n k =
     (case model n of
        None \<Rightarrow> model
      | Some m \<Rightarrow> model(n \<mapsto> m\<lparr>forward_hooks := forward_hooks m @ [k]\<rparr>))"

text \<open>
  \<^verbatim>\<open>
  def __init__(self, model, name, *, cca_distance=pwcca_distance, svd_cpu=True):
      self.model = model
      self.name = name
      _dict = {n: m for n, m in self.model.named_modules()}
      if self.name not in _dict.keys():
          raise NameError(f"No such name ({self.name}) in the model")
      if type(_dict[self.name]) not in self._supported_modules:
          raise TypeError(f"{type(_dict[self.name])} is not supported")
      self._module = _dict[self.name]
      self._module = {n: m for n, m in self.model.named_modules()}[self.name]
      self._key = f"_{self.name}_hooked_value"
      setattr(self._module, self._key, None)
      self._register_hook()
      if type(cca_distance) == str:
          cca_distance = self._cca_distance_function[cca_distance]
      self._cca_distance = cca_distance
      if svd_cpu:
          from multiprocessing import cpu_count
          torch.set_num_threads(cpu_count())
      self._cpu = svd_cpu and torch.cuda.is_available()

  def _register_hook(self):
      key = self._key
      def hook(module, _, output):
          setattr(module, key, output)
      self._module.register_forward_hook(hook)
  \<close>
  The constructor changes the module before it looks the distance up, so it returns
  the model together with the hook or the error.  Whether a GPU is available is the
  parameter \<open>cuda\<close>.
\<close>

definition CCAHook_init ::
  "bool \<Rightarrow> 't model \<Rightarrow> string \<Rightarrow> cca_distance_arg \<Rightarrow> bool \<Rightarrow> ccahook result \<times> 't model" where
  "CCAHook_init cuda model nm distance_arg svd_cpu =
     (case model nm of
        None \<Rightarrow> (Inl (NameError ''No such name in the model''), model)
      | Some m \<Rightarrow>
          if module_class m \<notin> set supported_modules
          then (Inl (TypeError ''is not supported''), model)
          else
            let k = ''_'' @ nm @ ''_hooked_value'';
                model = setattr model nm k None;
                model = register_hook model nm k
            in (case distance_arg of
                  Fun f \<Rightarrow>
                    (Inr \<lparr>name = nm, key = k, cca_distance = f, cpu = (svd_cpu \<and> cuda)\<rparr>, model)
                | Str s \<Rightarrow>
                    (case cca_distance_function s of
                       None \<Rightarrow> (Inl (KeyError s), model)
                     | Some f \<Rightarrow>
                         (Inr \<lparr>name = nm, key = k, cca_distance = f, cpu = (svd_cpu \<and> cuda)\<rparr>,
                          model))))"

text \<open>
  \<^verbatim>\<open>
  def clear(self):
      setattr(self._module, self._key, None)
  \<close>
\<close>

definition clear :: "ccahook \<Rightarrow> 't model \<Rightarrow> 't model" where
  "clear hook model = setattr model (name hook) (key hook) None"

text \<open>
  A forward pass through the module \<open>n\<close> with the output \<open>out\<close> calls the module's
  forward hooks in the order of their registration; each is
  \<^verbatim>\<open>
  def hook(module, _, output):
      setattr(module, key, output)
  \<close>
\<close>

definition forward :: "string \<Rightarrow> 't \<Rightarrow> 't model \<Rightarrow> 't model" where
  "forward n out model =
     (case model n of
        None \<Rightarrow> model
      | Some m \<Rightarrow> fold (\<lambda>k model. setattr model n k (Some out)) (forward_hooks m) model)"

text \<open>
  \<^verbatim>\<open>
  def _get_hooked_value(self):
      value = getattr(self._module, self._key)
      if value is None:
          raise RuntimeError("Please do model.forward() before CCA!")
      return value
  \<close>
\<close>

definition state_error :: error where
  "state_error = RuntimeError ''Please do model.forward() before CCA!''"

definition get_hooked_value :: "ccahook \<Rightarrow> 't model \<Rightarrow> 't result" where
  "get_hooked_value hook model =
     (case model (name hook) of
        None \<Rightarrow> Inl (AttributeError (key hook))
      | Some m \<Rightarrow>
          (case attrs m (key hook) of
             None \<Rightarrow> Inl (AttributeError (key hook))
           | Some None \<Rightarrow> Inl state_error
           | Some (Some value) \<Rightarrow> Inr value))"

text \<open>The events in the life of one capture, and the states of its slot.\<close>

datatype 't event = Forward 't | Clear

fun apply_event :: "ccahook \<Rightarrow> 't event \<Rightarrow> 't model \<Rightarrow> 't model" where
  "apply_event hook (Forward out) model = forward (name hook) out model"
| "apply_event hook Clear model = clear hook model"

definition run_events :: "ccahook \<Rightarrow> 't event list \<Rightarrow> 't model \<Rightarrow> 't model" where
  "run_events hook evs model = fold (apply_event hook) evs model"

datatype slot_state = Empty | Populated

definition slot_state :: "ccahook \<Rightarrow> 't model \<Rightarrow> slot_state option" where
  "slot_state hook model =
     (case model (name hook) of
        None \<Rightarrow> None
      | Some m \<Rightarrow>
          (case attrs m (key hook) of
             None \<Rightarrow> None
           | Some None \<Rightarrow> Some Empty
           | Some (Some value) \<Rightarrow> Some Populated))"

section \<open>Auxiliary notions for the statements\<close>

text \<open>The running sums of a list of reals, the finite counterpart of \<open>cumsum_from\<close>.\<close>

fun rcumsum :: "real \<Rightarrow> real list \<Rightarrow> real list" where
  "rcumsum acc [] = []"
| "rcumsum acc (x # xs) = (acc + x) # rcumsum (acc + x) xs"

text \<open>
  The content of a capture's slot: the attribute of the hooked module under the
  capture's key (\<open>None\<close> when the module or the attribute is missing).
\<close>

definition slot_value :: "ccahook \<Rightarrow> 't model \<Rightarrow> 't option option" where
  "slot_value hook model =
     (case model (name hook) of None \<Rightarrow> None | Some m \<Rightarrow> attrs m (key hook))"

text \<open>A capture is attached when its module has its attribute and its forward hook.\<close>

definition attached :: "ccahook \<Rightarrow> 't model \<Rightarrow> bool" where
  "attached hook model =
     (case model (name hook) of
        None \<Rightarrow> False
      | Some m \<Rightarrow> key hook \<in> set (forward_hooks m) \<and> attrs m (key hook) \<noteq> None)"

text \<open>
  The state machine of the specification: a forward pass stores its output, a clear
  empties the slot, and the slot is empty at the start.
\<close>

fun slot_step :: "'t event \<Rightarrow> 't option \<Rightarrow> 't option" where
  "slot_step (Forward out) s = Some out"
| "slot_step Clear s = None"

definition slot_after :: "'t event list \<Rightarrow> 't option" where
  "slot_after evs = fold slot_step evs None"

text \<open>
  The formula of the specification for the SVCCA distance: one minus the sum of the
  canonical correlations over the smaller of the two reduced column counts; and the
  distance of the specification, over a solver for the canonical correlations.
\<close>

definition claimed_svcca :: "fl list \<Rightarrow> nat \<Rightarrow> nat \<Rightarrow> fl" where
  "claimed_svcca diag kx ky = fsub (Fin 1) (fdiv (fsum diag) (Fin (real (min kx ky))))"

definition svcca_spec ::
  "(svd_fn \<Rightarrow> tensor2 \<Rightarrow> tensor2 \<Rightarrow> string \<Rightarrow> (tensor2 \<times> tensor2 \<times> fl list) result)
   \<Rightarrow> svd_fn \<Rightarrow> tensor2 \<Rightarrow> tensor2 \<Rightarrow> string \<Rightarrow> fl result" where
  "svcca_spec solver svd x y method =
     thenR (svd_reduction svd x default_accept_rate) (\<lambda>xr.
     thenR (svd_reduction svd y default_accept_rate) (\<lambda>yr.
     thenR (solver svd xr yr method) (\<lambda>(a, b, diag).
     Inr (claimed_svcca diag (size1 xr) (size1 yr)))))"

text \<open>
  The formula of the specification for the PWCCA distance, on real numbers: the weight
  of a direction is the sum over the samples of the absolute values of its column of
  \<open>x @ A\<close>, the weights are divided by their total, and the distance is one minus the
  weighted sum of the canonical correlations.
\<close>

fun rval :: "fl \<Rightarrow> real" where
  "rval (Fin a) = a"
| "rval _ = 0"

definition weight_sums :: "tensor2 \<Rightarrow> real list" where
  "weight_sums xa =
     map (\<lambda>j. sum_list (map (\<lambda>i. \<bar>rval (elem xa i j)\<bar>) [0..<size0 xa])) [0..<size1 xa]"

definition normalised_weights :: "tensor2 \<Rightarrow> real list" where
  "normalised_weights xa = map (\<lambda>c. c / sum_list (weight_sums xa)) (weight_sums xa)"


text \<open>
  The two results of the solver that the distances use: the canonical correlations, and
  the projection \<open>x @ A\<close> of a matrix on the directions for the first argument.
\<close>

definition correlations_of :: "(tensor2 \<times> tensor2 \<times> fl list) result \<Rightarrow> fl list result" where
  "correlations_of r = thenR r (\<lambda>(a, b, diag). Inr diag)"

definition projection_of :: "tensor2 \<Rightarrow> (tensor2 \<times> tensor2 \<times> fl list) result \<Rightarrow> tensor2 result" where
  "projection_of x r = thenR r (\<lambda>(a, b, diag). matmul x a)"

text \<open>
  What it means for a triple to be a singular value decomposition of a matrix: the
  shapes fit, the singular values are finite, not negative and in descending order, the
  product of the three factors is the matrix, and the columns of both bases are
  orthonormal.  This is the contract of the library's decomposition.
\<close>

definition rows_of :: "tensor2 result \<Rightarrow> fl list list option" where
  "rows_of r = (case r of Inl e \<Rightarrow> None | Inr t \<Rightarrow> Some (to_rows t))"

definition identity_rows :: "nat \<Rightarrow> fl list list" where
  "identity_rows k = map (\<lambda>i. map (\<lambda>j. Fin (if i = j then 1 else 0)) [0..<k]) [0..<k]"

definition is_svd_of :: "tensor2 \<Rightarrow> tensor2 \<times> fl list \<times> tensor2 \<Rightarrow> bool" where
  "is_svd_of t r =
     (case r of (u, s, v) \<Rightarrow>
        size0 u = size0 t \<and> size1 u = length s \<and> size0 v = size1 t \<and> size1 v = length s
        \<and> length s = min (size0 t) (size1 t)
        \<and> list_all (\<lambda>d. is_fin d \<and> 0 \<le> rval d) s
        \<and> sorted_wrt (\<lambda>a b. b \<le> a) (map rval s)
        \<and> rows_of (thenR (matmul u (diag_t s)) (\<lambda>m. matmul m (transpose_t v))) = Some (to_rows t)
        \<and> rows_of (matmul (transpose_t u) u) = Some (identity_rows (length s))
        \<and> rows_of (matmul (transpose_t v) v) = Some (identity_rows (length s)))"

text \<open>
  The decomposition honours its contract at a matrix when it returns a singular value
  decomposition of it.  \<open>gram_of\<close> is the matrix \<open>u_1.t() @ u_2\<close> of \<open>_svd_cca\<close>
  when both arguments are the same matrix.
\<close>

definition svd_contract_at :: "svd_fn \<Rightarrow> tensor2 \<Rightarrow> bool" where
  "svd_contract_at svd t = (case svd t of Inl e \<Rightarrow> False | Inr r \<Rightarrow> is_svd_of t r)"

definition gram_of :: "svd_fn \<Rightarrow> tensor2 \<Rightarrow> tensor2 result" where
  "gram_of svd t = thenR (svd t) (\<lambda>(u, s, v). matmul (transpose_t u) u)"

text \<open>The singular values that the decomposition returns for a matrix.\<close>

definition singular_values_of :: "svd_fn \<Rightarrow> tensor2 \<Rightarrow> fl list result" where
  "singular_values_of svd t = thenR (svd t) (\<lambda>(u, s, v). Inr s)"

text \<open>The value of a computation that succeeds (and a default otherwise).\<close>

definition the_result :: "'a result \<Rightarrow> 'a \<Rightarrow> 'a" where
  "the_result r d = (case r of Inl e \<Rightarrow> d | Inr v \<Rightarrow> v)"


section \<open>Concrete inputs\<close>

text \<open>
  The matrices below have decompositions with rational entries.  \<open>svd_table\<close> gives,
  for each matrix that the examples decompose, its singular value decomposition as the
  library returns it (up to the signs of the basis vectors, which the distances do not
  depend on), and raises on every other input.
\<close>

definition x_two :: tensor2 where
  "x_two = of_rows 4 2 [[7, 1], [7, -1], [1, 1], [1, -1]]"

definition y_two :: tensor2 where
  "y_two = of_rows 4 2 [[7, 1], [1, 1], [7, -1], [1, -1]]"


definition x_single :: tensor2 where
  "x_single = of_rows 2 1 [[3], [4]]"

definition x_constant :: tensor2 where
  "x_constant = of_rows 2 1 [[1], [1]]"

definition identity_2 :: tensor2 where
  "identity_2 = of_rows 2 2 [[1, 0], [0, 1]]"

definition identity_1 :: tensor2 where
  "identity_1 = of_rows 1 1 [[1]]"

definition empty_0_0 :: tensor2 where
  "empty_0_0 = of_rows 0 0 []"

definition outside_table :: "(tensor2 \<times> fl list \<times> tensor2) result" where
  "outside_table = Inl (RuntimeError ''svd: input outside the table'')"

definition svd_table_4_2 :: "fl list list \<Rightarrow> (tensor2 \<times> fl list \<times> tensor2) result" where
  "svd_table_4_2 rs =
     (if rs = map (map Fin) [[7, 1], [7, -1], [1, 1], [1, -1]]
      then Inr (of_rows 4 2 [[7/10, 1/2], [7/10, -1/2], [1/10, 1/2], [1/10, -1/2]],
                [Fin 10, Fin 2], identity_2)
      else if rs = map (map Fin) [[7, 1], [1, 1], [7, -1], [1, -1]]
      then Inr (of_rows 4 2 [[7/10, 1/2], [1/10, 1/2], [7/10, -1/2], [1/10, -1/2]],
                [Fin 10, Fin 2], identity_2)
      else if rs = map (map Fin) [[3, 1], [3, -1], [-3, 1], [-3, -1]]
      then Inr (of_rows 4 2 [[1/2, 1/2], [1/2, -1/2], [-1/2, 1/2], [-1/2, -1/2]],
                [Fin 6, Fin 2], identity_2)
      else if rs = map (map Fin) [[3, 1], [-3, 1], [3, -1], [-3, -1]]
      then Inr (of_rows 4 2 [[1/2, 1/2], [-1/2, 1/2], [1/2, -1/2], [-1/2, -1/2]],
                [Fin 6, Fin 2], identity_2)
      else if rs = map (map Fin) [[3, 1], [3, -1], [-3, -1], [-3, 1]]
      then Inr (of_rows 4 2 [[1/2, 1/2], [1/2, -1/2], [-1/2, -1/2], [-1/2, 1/2]],
                [Fin 6, Fin 2], identity_2)
      else outside_table)"

definition svd_table_4_1 :: "fl list list \<Rightarrow> (tensor2 \<times> fl list \<times> tensor2) result" where
  "svd_table_4_1 rs =
     (if rs = map (map Fin) [[3], [3], [-3], [-3]]
      then Inr (of_rows 4 1 [[1/2], [1/2], [-1/2], [-1/2]], [Fin 6], identity_1)
      else if rs = map (map Fin) [[3], [-3], [3], [-3]]
      then Inr (of_rows 4 1 [[1/2], [-1/2], [1/2], [-1/2]], [Fin 6], identity_1)
      else outside_table)"

definition svd_table_2_2 :: "fl list list \<Rightarrow> (tensor2 \<times> fl list \<times> tensor2) result" where
  "svd_table_2_2 rs =
     (if rs = map (map Fin) [[1, 0], [0, 1]]
      then Inr (identity_2, [Fin 1, Fin 1], identity_2)
      else if rs = map (map Fin) [[0, 1], [1, 0]]
      then Inr (of_rows 2 2 [[0, 1], [1, 0]], [Fin 1, Fin 1], identity_2)
      else if rs = map (map Fin) [[1, 0], [0, 0]]
      then Inr (identity_2, [Fin 1, Fin 0], identity_2)
      else outside_table)"

definition svd_table_2_1 :: "fl list list \<Rightarrow> (tensor2 \<times> fl list \<times> tensor2) result" where
  "svd_table_2_1 rs =
     (if rs = map (map Fin) [[3], [4]]
      then Inr (of_rows 2 1 [[3/5], [4/5]], [Fin 5], identity_1)
      else if rs = map (map Fin) [[0], [0]]
      then Inr (of_rows 2 1 [[1], [0]], [Fin 0], identity_1)
      else outside_table)"

definition svd_table_1_1 :: "fl list list \<Rightarrow> (tensor2 \<times> fl list \<times> tensor2) result" where
  "svd_table_1_1 rs =
     (if rs = map (map Fin) [[1]]
      then Inr (identity_1, [Fin 1], identity_1)
      else if rs = map (map Fin) [[0]]
      then Inr (identity_1, [Fin 0], identity_1)
      else outside_table)"

definition svd_table :: svd_fn where
  "svd_table t =
     (if size0 t = 4 \<and> size1 t = 2 then svd_table_4_2 (to_rows t)
      else if size0 t = 4 \<and> size1 t = 1 then svd_table_4_1 (to_rows t)
      else if size0 t = 2 \<and> size1 t = 2 then svd_table_2_2 (to_rows t)
      else if size0 t = 2 \<and> size1 t = 1 then svd_table_2_1 (to_rows t)
      else if size0 t = 1 \<and> size1 t = 1 then svd_table_1_1 (to_rows t)
      else if size0 t = 2 \<and> size1 t = 0 then Inr (of_rows 2 0 [[], []], [], empty_0_0)
      else if size0 t = 0 \<and> size1 t = 0 then Inr (empty_0_0, [], empty_0_0)
      else outside_table)"

text \<open>\<open>table_inputs\<close> lists the matrices that \<open>svd_table\<close> decomposes.\<close>

definition table_inputs :: "tensor2 list" where
  "table_inputs =
     [x_two, y_two,
      of_rows 4 2 [[3, 1], [3, -1], [-3, 1], [-3, -1]],
      of_rows 4 2 [[3, 1], [-3, 1], [3, -1], [-3, -1]],
      of_rows 4 1 [[3], [3], [-3], [-3]],
      of_rows 4 1 [[3], [-3], [3], [-3]],
      identity_2,
      of_rows 2 2 [[0, 1], [1, 0]],
      of_rows 4 2 [[3, 1], [3, -1], [-3, -1], [-3, 1]],
      of_rows 2 2 [[1, 0], [0, 0]],
      x_single,
      of_rows 2 1 [[0], [0]],
      identity_1,
      of_rows 1 1 [[0]],
      of_rows 2 0 [[], []],
      empty_0_0]"

text \<open>A model with a dense layer, a convolution and an activation.\<close>

definition fresh_module :: "module_class \<Rightarrow> nat module" where
  "fresh_module c = \<lparr>module_class = c, attrs = Map.empty, forward_hooks = []\<rparr>"

definition small_model :: "nat model" where
  "small_model = [''fc'' \<mapsto> fresh_module Linear,
                  ''conv'' \<mapsto> fresh_module Conv2d,
                  ''relu'' \<mapsto> fresh_module (OtherClass ''ReLU'')]"

text \<open>The capture of the dense layer with the default arguments, and the model after it.\<close>

definition fc_hook :: ccahook where
  "fc_hook = \<lparr>name = ''fc'', key = ''_fc_hooked_value'', cca_distance = Pwcca_distance, cpu = False\<rparr>"

definition fc_model :: "nat model" where
  "fc_model = snd (CCAHook_init False small_model ''fc'' (Fun Pwcca_distance) True)"

text \<open>The reductions of the example matrices, and a feature map of height 10 and width 5.\<close>

definition x_two_reduced :: tensor2 where
  "x_two_reduced =
     (case svd_reduction svd_table x_two default_accept_rate of Inr t \<Rightarrow> t | Inl e \<Rightarrow> x_two)"

definition y_two_reduced :: tensor2 where
  "y_two_reduced =
     (case svd_reduction svd_table y_two default_accept_rate of Inr t \<Rightarrow> t | Inl e \<Rightarrow> y_two)"

definition map_10_5 :: "(nat \<Rightarrow> nat \<Rightarrow> nat \<Rightarrow> nat \<Rightarrow> fl) \<Rightarrow> tensor4" where
  "map_10_5 e = \<lparr>shape4 = (1, 1, 10, 5), elem4 = e\<rparr>"

text \<open>The projection \<open>x @ A\<close> of the first example matrix on its directions with itself.\<close>

definition x_two_projected :: tensor2 where
  "x_two_projected =
     (case projection_of x_two (underscore_cca svd_table x_two x_two ''svd'') of
        Inr t \<Rightarrow> t | Inl e \<Rightarrow> x_two)"

text \<open>
  The intermediate matrices of the self-distances of \<open>x_two\<close>: the centred reduction and
  its Gram matrix, the centred matrix and its Gram matrix; and the projection of
  \<open>x_two\<close> on its directions against \<open>y_three\<close>.
\<close>

definition x_two_reduced_centred :: tensor2 where
  "x_two_reduced_centred = the_result (zero_mean x_two_reduced 0) x_two"

definition x_two_reduced_gram :: tensor2 where
  "x_two_reduced_gram = the_result (gram_of svd_table x_two_reduced_centred) x_two"

definition x_two_centred :: tensor2 where
  "x_two_centred = the_result (zero_mean x_two 0) x_two"

definition x_two_gram :: tensor2 where
  "x_two_gram = the_result (gram_of svd_table x_two_centred) x_two"


section \<open>Facts about the element arithmetic\<close>

lemma fsum_Fin: "fsum (map Fin rs) = Fin (sum_list rs)"
  by (induction rs) auto

lemma fsum_indicator:
  "fsum (map (\<lambda>q. if P q then Fin 1 else Fin 0) xs) = Fin (real (length (filter P xs)))"
  by (induction xs) auto

lemma flt_mono: "flt q (Fin r1) \<Longrightarrow> r1 \<le> r2 \<Longrightarrow> flt q (Fin r2)"
  by (cases q) auto

lemma all_fin_map: "\<forall>d\<in>set diag. is_fin d \<Longrightarrow> \<exists>ds. diag = map Fin ds"
proof (induction diag)
  case Nil
  then show ?case by simp
next
  case (Cons d diag)
  then obtain ds where "diag = map Fin ds" by auto
  moreover from Cons.prems obtain a where "d = Fin a" by (cases d) auto
  ultimately have "d # diag = map Fin (a # ds)" by simp
  then show ?case by (rule exI)
qed

section \<open>Facts about lists\<close>

lemma length_filter_mono:
  "(\<And>x. P x \<Longrightarrow> Q x) \<Longrightarrow> length (filter P xs) \<le> length (filter Q xs)"
  by (induction xs) auto


section \<open>The running sums of the singular values\<close>

lemma cumsum_from_Fin: "cumsum_from (Fin a) (map Fin rs) = map Fin (rcumsum a rs)"
  by (induction rs arbitrary: a) auto

lemma length_rcumsum [simp]: "length (rcumsum a rs) = length rs"
  by (induction rs arbitrary: a) auto

lemma rcumsum_nth: "i < length rs \<Longrightarrow> rcumsum a rs ! i = a + sum_list (take (Suc i) rs)"
proof (induction rs arbitrary: a i)
  case Nil
  then show ?case by simp
next
  case (Cons x xs)
  then show ?case by (cases i) auto
qed



lemma rcumsum_last:
  assumes "rs \<noteq> []"
  shows "last (rcumsum a rs) = a + sum_list rs"
proof -
  have ne: "rcumsum a rs \<noteq> []" using assms by (cases rs) auto
  have "last (rcumsum a rs) = rcumsum a rs ! (length rs - 1)"
    using last_conv_nth [OF ne] by simp
  also have "\<dots> = a + sum_list (take (Suc (length rs - 1)) rs)"
    using assms by (intro rcumsum_nth) simp
  finally show ?thesis using assms by simp
qed

section \<open>The energy ratio and the retained count\<close>

lemma energy_ratio_Fin:
  "energy_ratio (map Fin ds) =
     map (\<lambda>c. fdiv (Fin c) (Fin (sum_list (map abs ds)))) (rcumsum 0 (map abs ds))"
proof -
  have a: "map fabs (map Fin ds) = map Fin (map abs ds)" by simp
  show ?thesis
    unfolding energy_ratio_def cumsum_def a fsum_Fin cumsum_from_Fin Let_def
    by (simp add: comp_def)
qed

lemma length_energy_ratio:
  "\<forall>d\<in>set diag. is_fin d \<Longrightarrow> length (energy_ratio diag) = length diag"
  using all_fin_map [of diag] by (auto simp: energy_ratio_Fin)


lemma energy_ratio_last_not_below:
  assumes "ds \<noteq> []" "r \<le> 1"
  shows "\<not> flt (last (energy_ratio (map Fin ds))) (Fin r)"
proof -
  let ?abs = "map abs ds"
  have ne: "rcumsum 0 ?abs \<noteq> []" using assms(1) by (cases ds) auto
  have "last (rcumsum 0 ?abs) = sum_list ?abs"
    using rcumsum_last [of ?abs 0] assms(1) by simp
  then have "last (energy_ratio (map Fin ds)) = fdiv (Fin (sum_list ?abs)) (Fin (sum_list ?abs))"
    unfolding energy_ratio_Fin by (metis last_map ne)
  then show ?thesis using assms(2) by simp
qed

lemma retained_num_count:
  "retained_num diag r = Fin (real (length (filter (\<lambda>q. flt q (Fin r)) (energy_ratio diag))))"
  unfolding retained_num_def by (rule fsum_indicator)

lemma py_int_retained:
  "py_int (retained_num diag r) =
     Inr (int (length (filter (\<lambda>q. flt q (Fin r)) (energy_ratio diag))))"
  by (simp add: retained_num_count)

lemma retained_count_mono:
  "r1 \<le> r2 \<Longrightarrow>
   length (filter (\<lambda>q. flt q (Fin r1)) qs) \<le> length (filter (\<lambda>q. flt q (Fin r2)) qs)"
  by (rule length_filter_mono) (rule flt_mono)

text \<open>The value of \<open>svd_reduction\<close> when the decomposition succeeds with a fitting basis.\<close>

lemma svd_reduction_Inr:
  assumes "svd tensor = Inr (left, diag, right)" "size0 right = size1 tensor"
  shows "svd_reduction svd tensor r =
           Inr \<lparr>size0 = size0 tensor,
                size1 = min (length (filter (\<lambda>q. flt q (Fin r)) (energy_ratio diag))) (size1 right),
                elem = (\<lambda>i j. fsum (map (\<lambda>l. fmul (elem tensor i l) (elem right l j)) [0..<size1 tensor]))\<rparr>"
  using assms
  by (simp add: svd_reduction_def thenR_def py_int_retained matmul_def slice_cols_def)

section \<open>Evaluating the concrete inputs\<close>

lemma upt_2: "[0..<2] = [0, 1]"
  by (simp add: upt_rec)

lemma upt_4: "[0..<4] = [0, 1, 2, 3]"
  by (simp add: upt_rec)

lemma shape_x_two: "size0 x_two = 4" "size1 x_two = 2"
  by (simp_all add: x_two_def of_rows_def)

lemma shape_y_two: "size0 y_two = 4" "size1 y_two = 2"
  by (simp_all add: y_two_def of_rows_def)

lemma shape_identity_2: "size0 identity_2 = 2" "size1 identity_2 = 2"
  by (simp_all add: identity_2_def of_rows_def)

lemma shape_identity_1: "size0 identity_1 = 1" "size1 identity_1 = 1"
  by (simp_all add: identity_1_def of_rows_def)

lemma svd_x_two:
  "svd_table x_two =
     Inr (of_rows 4 2 [[7/10, 1/2], [7/10, -1/2], [1/10, 1/2], [1/10, -1/2]],
          [Fin 10, Fin 2], identity_2)"
  by (simp add: svd_table_def svd_table_4_2_def x_two_def of_rows_def to_rows_def upt_4 upt_2)

lemma svd_y_two:
  "svd_table y_two =
     Inr (of_rows 4 2 [[7/10, 1/2], [1/10, 1/2], [7/10, -1/2], [1/10, -1/2]],
          [Fin 10, Fin 2], identity_2)"
  by (simp add: svd_table_def svd_table_4_2_def y_two_def of_rows_def to_rows_def upt_4 upt_2)


lemmas tensor_simps = of_rows_def to_rows_def matmul_def transpose_t_def diag_t_def
  reciprocal_def zero_mean_def slice_cols_def thenR_def fsub_def upt_2 upt_4

lemmas table_simps = svd_table_def svd_table_4_2_def svd_table_4_1_def svd_table_2_2_def
  svd_table_2_1_def svd_table_1_1_def outside_table_def
  x_two_def y_two_def x_single_def identity_2_def identity_1_def empty_0_0_def

section \<open>Properties of \<open>svd_reduction\<close>\<close>

text \<open>
  C9.  For a fixed input, the number of columns that \<open>svd_reduction\<close> keeps does not
  decrease when the accept rate grows: with \<open>r1 \<le> r2\<close>, the reduction at \<open>r1\<close> has
  at most as many columns as the reduction at \<open>r2\<close>.
\<close>

theorem svd_reduction_monotone:
  assumes "r1 \<le> r2"
    and "svd tensor = Inr (left, diag, right)"
    and "size0 right = size1 tensor"
  shows "\<exists>a b. svd_reduction svd tensor r1 = Inr a \<and> svd_reduction svd tensor r2 = Inr b
           \<and> size1 a \<le> size1 b"
  using retained_count_mono [OF assms(1), of "energy_ratio diag"]
  by (simp add: svd_reduction_Inr [of svd tensor left diag right, OF assms(2,3)] min.coboundedI1)

theorem svd_reduction_monotone_witness:
  "(1/2 :: real) \<le> 99/100
   \<and> svd_table x_two =
       Inr (of_rows 4 2 [[7/10, 1/2], [7/10, -1/2], [1/10, 1/2], [1/10, -1/2]],
            [Fin 10, Fin 2], identity_2)
   \<and> size0 identity_2 = size1 x_two
   \<and> (\<exists>a b. svd_reduction svd_table x_two (1/2) = Inr a
          \<and> svd_reduction svd_table x_two (99/100) = Inr b \<and> size1 a \<le> size1 b)"
proof -
  have r: "(1/2 :: real) \<le> 99/100" by simp
  have s: "size0 identity_2 = size1 x_two" by (simp add: shape_identity_2 shape_x_two)
  show ?thesis
    using r svd_x_two s svd_reduction_monotone [of "1/2" "99/100" svd_table x_two "of_rows 4 2 [[7/10, 1/2], [7/10, -1/2], [1/10, 1/2], [1/10, -1/2]]" "[Fin 10, Fin 2]" identity_2, OF r svd_x_two s] by blast
qed



text \<open>
  C10.  When the decomposition returns finite singular values, at least one of them not
  zero, and the accept rate is at most 1, the last cumulative ratio is 1 and is not
  below the accept rate: \<open>svd_reduction\<close> keeps at most all singular vectors but one,
  and the result has fewer columns than the smaller dimension of the input.
\<close>

theorem svd_reduction_never_full:
  assumes "svd tensor = Inr (left, diag, right)"
    and "\<forall>d\<in>set diag. is_fin d"
    and "\<exists>d\<in>set diag. d \<noteq> Fin 0"
    and "accept_rate \<le> 1"
    and "size0 right = size1 tensor"
    and "length diag = min (size0 tensor) (size1 tensor)"
  shows "\<not> flt (last (energy_ratio diag)) (Fin accept_rate)
         \<and> (\<exists>res. svd_reduction svd tensor accept_rate = Inr res
               \<and> int (size1 res) \<le> int (length diag) - 1
               \<and> size1 res < min (size0 tensor) (size1 tensor))"
proof -
  let ?P = "\<lambda>q. flt q (Fin accept_rate)"
  from assms(2) obtain ds where ds: "diag = map Fin ds" using all_fin_map by blast
  from assms(3) have ne: "ds \<noteq> []" unfolding ds by auto
  have er_ne: "energy_ratio diag \<noteq> []"
    using length_energy_ratio [OF assms(2)] ne ds by auto
  have last: "\<not> ?P (last (energy_ratio diag))"
    unfolding ds by (rule energy_ratio_last_not_below [OF ne assms(4)])
  moreover have "last (energy_ratio diag) \<in> set (energy_ratio diag)"
    using er_ne by simp
  ultimately have "length (filter ?P (energy_ratio diag)) < length (energy_ratio diag)"
    using length_filter_less by metis
  then have lt: "length (filter ?P (energy_ratio diag)) < length diag"
    by (simp add: length_energy_ratio [OF assms(2)])
  show ?thesis
    unfolding svd_reduction_Inr [of svd tensor left diag right, OF assms(1,5)] using lt assms(6) last
    by (auto simp: min_def)
qed

theorem svd_reduction_never_full_witness:
  "svd_table x_two =
       Inr (of_rows 4 2 [[7/10, 1/2], [7/10, -1/2], [1/10, 1/2], [1/10, -1/2]],
            [Fin 10, Fin 2], identity_2)
   \<and> is_fin (Fin 10) \<and> is_fin (Fin 2)
   \<and> (\<exists>d\<in>set [Fin 10, Fin 2]. d \<noteq> Fin 0)
   \<and> (1 :: real) \<le> 1
   \<and> size0 identity_2 = size1 x_two
   \<and> length [Fin 10, Fin (2::real)] = min (size0 x_two) (size1 x_two)
   \<and> (\<exists>res. svd_reduction svd_table x_two 1 = Inr res \<and> size1 res < 2)"
proof -
  have f: "\<forall>d\<in>set [Fin 10, Fin 2]. is_fin d" by simp
  have n: "\<exists>d\<in>set [Fin 10, Fin 2]. d \<noteq> Fin 0" by simp
  have r: "(1 :: real) \<le> 1" by simp
  have s: "size0 identity_2 = size1 x_two" by (simp add: shape_identity_2 shape_x_two)
  have l: "length [Fin 10, Fin (2::real)] = min (size0 x_two) (size1 x_two)"
    by (simp add: shape_x_two)
  show ?thesis
    using svd_x_two f n r s l svd_reduction_never_full [of svd_table x_two "of_rows 4 2 [[7/10, 1/2], [7/10, -1/2], [1/10, 1/2], [1/10, -1/2]]" "[Fin 10, Fin 2]" identity_2 1, OF svd_x_two f n r s l]
    by (auto simp: shape_x_two)
qed

section \<open>The capture slot\<close>

lemma setattr_Some:
  "model n = Some m \<Longrightarrow> setattr model n k v = model(n \<mapsto> m\<lparr>attrs := (attrs m)(k \<mapsto> v)\<rparr>)"
  by (simp add: setattr_def)

lemma run_hooks_lookup:
  "model n = Some m \<Longrightarrow>
   fold (\<lambda>k model. setattr model n k v) ks model n =
     Some (m\<lparr>attrs := (\<lambda>k. if k \<in> set ks then Some v else attrs m k)\<rparr>)"
proof (induction ks arbitrary: model m)
  case Nil
  then show ?case by simp
next
  case (Cons k ks)
  let ?m = "m\<lparr>attrs := (attrs m)(k \<mapsto> v)\<rparr>"
  have "setattr model n k v n = Some ?m" using Cons.prems by (simp add: setattr_Some)
  from Cons.IH [of "setattr model n k v" ?m, OF this]
  have "fold (\<lambda>k model. setattr model n k v) ks (setattr model n k v) n =
          Some (?m\<lparr>attrs := (\<lambda>k'. if k' \<in> set ks then Some v else attrs ?m k')\<rparr>)" .
  moreover have "(\<lambda>k'. if k' \<in> set ks then Some v else attrs ?m k') =
                 (\<lambda>k'. if k' \<in> set (k # ks) then Some v else attrs m k')"
    by (rule ext) simp
  ultimately show ?case by simp
qed

lemma forward_slot:
  assumes "attached hook model"
  shows "attached hook (forward (name hook) out model)"
    and "slot_value hook (forward (name hook) out model) = Some (Some out)"
proof -
  from assms obtain m where m: "model (name hook) = Some m"
    and k: "key hook \<in> set (forward_hooks m)"
    by (auto simp: attached_def split: option.splits)
  have "forward (name hook) out model (name hook) =
          Some (m\<lparr>attrs := (\<lambda>k. if k \<in> set (forward_hooks m) then Some (Some out) else attrs m k)\<rparr>)"
    using m by (simp add: forward_def run_hooks_lookup)
  then show "attached hook (forward (name hook) out model)"
    and "slot_value hook (forward (name hook) out model) = Some (Some out)"
    using k by (simp_all add: attached_def slot_value_def)
qed

lemma clear_slot:
  assumes "attached hook model"
  shows "attached hook (clear hook model)"
    and "slot_value hook (clear hook model) = Some None"
proof -
  from assms obtain m where m: "model (name hook) = Some m"
    and k: "key hook \<in> set (forward_hooks m)"
    by (auto simp: attached_def split: option.splits)
  show "attached hook (clear hook model)" "slot_value hook (clear hook model) = Some None"
    using m k by (simp_all add: clear_def setattr_Some attached_def slot_value_def)
qed

lemma apply_event_slot:
  assumes "attached hook model"
  shows "attached hook (apply_event hook e model)
         \<and> slot_value hook (apply_event hook e model) = Some (slot_step e s)"
  using forward_slot [OF assms] clear_slot [OF assms] by (cases e) simp_all

lemma run_events_slot:
  "attached hook model \<Longrightarrow> slot_value hook model = Some s \<Longrightarrow>
   attached hook (run_events hook evs model)
   \<and> slot_value hook (run_events hook evs model) = Some (fold slot_step evs s)"
proof (induction evs arbitrary: model s)
  case Nil
  then show ?case by (simp add: run_events_def)
next
  case (Cons e evs)
  from apply_event_slot [OF Cons.prems(1), of e s]
  have "attached hook (apply_event hook e model)"
    and "slot_value hook (apply_event hook e model) = Some (slot_step e s)" by simp_all
  from Cons.IH [OF this] show ?case by (simp add: run_events_def)
qed

lemma get_hooked_value_slot:
  "get_hooked_value hook model =
     (case slot_value hook model of
        None \<Rightarrow> Inl (AttributeError (key hook))
      | Some None \<Rightarrow> Inl state_error
      | Some (Some value) \<Rightarrow> Inr value)"
  by (simp add: get_hooked_value_def slot_value_def split: option.splits)

lemma slot_state_slot:
  "slot_state hook model =
     (case slot_value hook model of
        None \<Rightarrow> None
      | Some None \<Rightarrow> Some Empty
      | Some (Some value) \<Rightarrow> Some Populated)"
  by (simp add: slot_state_def slot_value_def split: option.splits)

lemma init_attached:
  assumes "CCAHook_init cuda model nm arg svd_cpu = (Inr hook, m0)"
  shows "attached hook m0" and "slot_value hook m0 = Some None" and "name hook = nm"
proof -
  from assms obtain m where m: "model nm = Some m"
    by (cases "model nm") (simp_all add: CCAHook_init_def)
  let ?k = "''_'' @ nm @ ''_hooked_value''"
  let ?m0 = "register_hook (setattr model nm ?k None) nm ?k"
  from assms m have h: "name hook = nm" "key hook = ?k" and m0: "m0 = ?m0"
    by (auto simp: CCAHook_init_def Let_def split: if_splits cca_distance_arg.splits option.splits)
  have "?m0 nm = Some (m\<lparr>attrs := (attrs m)(?k \<mapsto> None), forward_hooks := forward_hooks m @ [?k]\<rparr>)"
    using m by (simp add: register_hook_def setattr_Some)
  then show "attached hook m0" "slot_value hook m0 = Some None" "name hook = nm"
    using h m0 by (simp_all add: attached_def slot_value_def)
qed

text \<open>
  C7.  After a successful attach the slot is Empty.  After any sequence of forward
  passes through the hooked layer and clears, the slot is Populated with the output of
  the last forward pass when the sequence ends with a forward pass, and Empty when the
  sequence is empty or ends with a clear; \<open>_get_hooked_value\<close> returns the stored output
  in the first case and raises the \<open>RuntimeError\<close> in the second.  So it raises exactly
  when the slot is Empty.
\<close>

theorem capture_slot_state_machine:
  assumes "CCAHook_init cuda model nm arg svd_cpu = (Inr hook, m0)"
  shows "slot_state hook m0 = Some Empty
         \<and> get_hooked_value hook (run_events hook evs m0) =
             (case slot_after evs of None \<Rightarrow> Inl state_error | Some out \<Rightarrow> Inr out)
         \<and> slot_state hook (run_events hook evs m0) =
             Some (case slot_after evs of None \<Rightarrow> Empty | Some out \<Rightarrow> Populated)
         \<and> get_hooked_value hook (run_events hook (evs @ [Forward out]) m0) = Inr out
         \<and> get_hooked_value hook (run_events hook (evs @ [Clear]) m0) = Inl state_error
         \<and> ((\<exists>e. get_hooked_value hook (run_events hook evs m0) = Inl e)
              = (slot_state hook (run_events hook evs m0) = Some Empty))"
proof -
  note a = init_attached(1,2) [OF assms]
  have r: "slot_value hook (run_events hook es m0) = Some (slot_after es)" for es
    using run_events_slot [OF a, of es] by (simp add: slot_after_def)
  have "slot_state hook m0 = Some Empty" using a(2) by (simp add: slot_state_slot)
  moreover have "slot_after (evs @ [Forward out]) = Some out" "slot_after (evs @ [Clear]) = (None :: 'a option)"
    by (simp_all add: slot_after_def)
  ultimately show ?thesis
    by (simp add: get_hooked_value_slot slot_state_slot r split: option.splits)
qed

lemma init_fc: "CCAHook_init False small_model ''fc'' (Fun Pwcca_distance) True = (Inr fc_hook, fc_model)"
proof -
  have "fst (CCAHook_init False small_model ''fc'' (Fun Pwcca_distance) True) = Inr fc_hook"
    by (simp add: CCAHook_init_def small_model_def fresh_module_def supported_modules_def
        fc_hook_def Let_def)
  then show ?thesis unfolding fc_model_def by (metis prod.collapse)
qed

theorem capture_slot_state_machine_witness:
  "CCAHook_init False small_model ''fc'' (Fun Pwcca_distance) True = (Inr fc_hook, fc_model)
   \<and> slot_state fc_hook fc_model = Some Empty
   \<and> get_hooked_value fc_hook (run_events fc_hook [] fc_model) = Inl state_error
   \<and> get_hooked_value fc_hook (run_events fc_hook [Forward 1, Forward 2] fc_model) = Inr 2
   \<and> slot_state fc_hook (run_events fc_hook [Forward 1, Forward 2] fc_model) = Some Populated
   \<and> get_hooked_value fc_hook (run_events fc_hook [Forward 1, Forward 2, Clear] fc_model)
       = Inl state_error
   \<and> slot_state fc_hook (run_events fc_hook [Forward 1, Forward 2, Clear] fc_model) = Some Empty"
  using init_fc
    capture_slot_state_machine [OF init_fc, of "[]" 0]
    capture_slot_state_machine [OF init_fc, of "[Forward 1, Forward 2]" 0]
    capture_slot_state_machine [OF init_fc, of "[Forward 1, Forward 2, Clear]" 0]
  by (simp add: slot_after_def)

section \<open>Attaching a capture\<close>

lemma init_slot_empty:
  assumes "fst (CCAHook_init cuda model nm arg svd_cpu) = Inr hook"
  shows "name hook = nm \<and> slot_state hook (snd (CCAHook_init cuda model nm arg svd_cpu)) = Some Empty"
proof -
  from assms have "CCAHook_init cuda model nm arg svd_cpu =
      (Inr hook, snd (CCAHook_init cuda model nm arg svd_cpu))"
    by (metis prod.collapse)
  from init_attached(2,3) [OF this] show ?thesis by (simp add: slot_state_slot)
qed

text \<open>
  C8.  The constructor of \<open>CCAHook\<close> raises \<open>NameError\<close> when the name is not in the
  model's registry, and \<open>TypeError\<close> when the class of the named module is neither
  \<open>Linear\<close> nor \<open>Conv2d\<close>; in both cases it has not touched the model, and no forward
  pass is involved.  Otherwise, with the distance given as a function (the default) or
  as one of the two registered names, it succeeds, and the capture starts Empty.
\<close>

theorem attach_errors:
  "(model nm = None \<longrightarrow>
      CCAHook_init cuda model nm arg svd_cpu = (Inl (NameError ''No such name in the model''), model))
   \<and> (\<forall>m. model nm = Some m \<and> module_class m \<noteq> Linear \<and> module_class m \<noteq> Conv2d \<longrightarrow>
      CCAHook_init cuda model nm arg svd_cpu = (Inl (TypeError ''is not supported''), model))
   \<and> (\<forall>m. model nm = Some m \<and> (module_class m = Linear \<or> module_class m = Conv2d)
          \<and> (\<forall>s. arg = Str s \<longrightarrow> s = ''svcca'' \<or> s = ''pwcca'') \<longrightarrow>
      (\<exists>hook. fst (CCAHook_init cuda model nm arg svd_cpu) = Inr hook \<and> name hook = nm
         \<and> slot_state hook (snd (CCAHook_init cuda model nm arg svd_cpu)) = Some Empty))"
proof (intro conjI allI impI)
  assume "model nm = None"
  then show "CCAHook_init cuda model nm arg svd_cpu = (Inl (NameError ''No such name in the model''), model)"
    by (simp add: CCAHook_init_def)
next
  fix m assume "model nm = Some m \<and> module_class m \<noteq> Linear \<and> module_class m \<noteq> Conv2d"
  then show "CCAHook_init cuda model nm arg svd_cpu = (Inl (TypeError ''is not supported''), model)"
    by (simp add: CCAHook_init_def supported_modules_def)
next
  fix m
  assume a: "model nm = Some m \<and> (module_class m = Linear \<or> module_class m = Conv2d)
          \<and> (\<forall>s. arg = Str s \<longrightarrow> s = ''svcca'' \<or> s = ''pwcca'')"
  have "\<exists>hook. fst (CCAHook_init cuda model nm arg svd_cpu) = Inr hook"
  proof (cases arg)
    case (Str s)
    with a have "s = ''svcca'' \<or> s = ''pwcca''" by simp
    with a Str show ?thesis
      by (auto simp: CCAHook_init_def supported_modules_def cca_distance_function_def Let_def)
  next
    case (Fun f)
    with a show ?thesis
      by (auto simp: CCAHook_init_def supported_modules_def Let_def)
  qed
  then obtain hook where h: "fst (CCAHook_init cuda model nm arg svd_cpu) = Inr hook" ..
  with init_slot_empty [OF h]
  show "\<exists>hook. fst (CCAHook_init cuda model nm arg svd_cpu) = Inr hook \<and> name hook = nm
         \<and> slot_state hook (snd (CCAHook_init cuda model nm arg svd_cpu)) = Some Empty"
    by blast
qed

theorem attach_errors_witness:
  "small_model ''missing'' = None
   \<and> CCAHook_init False small_model ''missing'' (Fun Pwcca_distance) True
       = (Inl (NameError ''No such name in the model''), small_model)
   \<and> small_model ''relu'' = Some (fresh_module (OtherClass ''ReLU''))
   \<and> module_class (fresh_module (OtherClass ''ReLU'')) \<noteq> Linear
   \<and> module_class (fresh_module (OtherClass ''ReLU'')) \<noteq> Conv2d
   \<and> CCAHook_init False small_model ''relu'' (Fun Pwcca_distance) True
       = (Inl (TypeError ''is not supported''), small_model)
   \<and> small_model ''conv'' = Some (fresh_module Conv2d)
   \<and> module_class (fresh_module Conv2d) = Conv2d
   \<and> (\<exists>hook. fst (CCAHook_init False small_model ''conv'' (Str ''svcca'') True) = Inr hook
         \<and> name hook = ''conv''
         \<and> slot_state hook (snd (CCAHook_init False small_model ''conv'' (Str ''svcca'') True))
             = Some Empty)"
proof -
  have 1: "small_model ''missing'' = None" by (simp add: small_model_def)
  have 2: "small_model ''relu'' = Some (fresh_module (OtherClass ''ReLU''))
           \<and> module_class (fresh_module (OtherClass ''ReLU'')) \<noteq> Linear
           \<and> module_class (fresh_module (OtherClass ''ReLU'')) \<noteq> Conv2d"
    by (simp add: small_model_def fresh_module_def)
  have 3: "small_model ''conv'' = Some (fresh_module Conv2d)
           \<and> (module_class (fresh_module Conv2d) = Linear \<or> module_class (fresh_module Conv2d) = Conv2d)
           \<and> (\<forall>s. Str ''svcca'' = Str s \<longrightarrow> s = ''svcca'' \<or> s = ''pwcca'')"
    by (simp add: small_model_def fresh_module_def)
  from attach_errors [of small_model "''missing''" False "Fun Pwcca_distance" True] 1
  have a: "CCAHook_init False small_model ''missing'' (Fun Pwcca_distance) True
       = (Inl (NameError ''No such name in the model''), small_model)" by blast
  from attach_errors [of small_model "''relu''" False "Fun Pwcca_distance" True] 2
  have b: "CCAHook_init False small_model ''relu'' (Fun Pwcca_distance) True
       = (Inl (TypeError ''is not supported''), small_model)" by blast
  from attach_errors [of small_model "''conv''" False "Str ''svcca''" True] 3
  have c: "\<exists>hook. fst (CCAHook_init False small_model ''conv'' (Str ''svcca'') True) = Inr hook
         \<and> name hook = ''conv''
         \<and> slot_state hook (snd (CCAHook_init False small_model ''conv'' (Str ''svcca'') True))
             = Some Empty" by blast
  from 1 2 3 a b c show ?thesis by (simp add: fresh_module_def)
qed

text \<open>A distance given by a name that is not registered raises \<open>KeyError\<close>, after the
  module has been changed.\<close>

lemma attach_unknown_distance:
  "model nm = Some m \<Longrightarrow> module_class m = Linear \<or> module_class m = Conv2d \<Longrightarrow>
   s \<noteq> ''svcca'' \<Longrightarrow> s \<noteq> ''pwcca'' \<Longrightarrow>
   fst (CCAHook_init cuda model nm (Str s) svd_cpu) = Inl (KeyError s)"
  by (auto simp: CCAHook_init_def supported_modules_def cca_distance_function_def Let_def)

section \<open>The method argument\<close>

lemma cca_qr_not_implemented:
  "size0 x = size0 y \<Longrightarrow> cca svd x y ''qr'' = Inl NotImplementedError"
  by (simp add: cca_def qr_cca_def zero_mean_def thenR_def)

lemma underscore_cca_ignores_method:
  "underscore_cca svd x y ''qr'' = underscore_cca svd x y ''svd''"
  by (simp add: underscore_cca_def)

text \<open>
  C3.  In the package, \<open>_cca\<close> with the method \<open>qr\<close> does not raise
  \<open>NotImplementedError\<close>: it returns what the method \<open>svd\<close> returns, here the
  canonical correlations 1 and 1 of a matrix with itself.  On the same input, \<open>cca\<close>
  of \<^verbatim>\<open>src/cca.py\<close> raises \<open>NotImplementedError\<close>.
\<close>

theorem qr_runs_svd_in_package:
  "underscore_cca svd_table x_two x_two ''qr'' = underscore_cca svd_table x_two x_two ''svd''
   \<and> (\<exists>a b. underscore_cca svd_table x_two x_two ''qr'' = Inr (a, b, [Fin 1, Fin 1]))
   \<and> underscore_cca svd_table x_two x_two ''qr'' \<noteq> Inl NotImplementedError
   \<and> cca svd_table x_two x_two ''qr'' = Inl NotImplementedError"
proof -
  have "\<exists>a b. underscore_cca svd_table x_two x_two ''svd'' = Inr (a, b, [Fin 1, Fin 1])"
    by (simp add: underscore_cca_def svd_cca_def tensor_simps table_simps)
  then show ?thesis
    using cca_qr_not_implemented [of x_two x_two svd_table]
    by (auto simp: underscore_cca_ignores_method)
qed

section \<open>The size check of the convolutional adapter\<close>

lemma tuple_gt_same:
  "tuple_gt (sz, sz) (h, w) = (sz > h \<or> (sz = h \<and> sz > w))"
  by (simp add: tuple_gt_def)

lemma conv2d_reshape_raises_only_if_exceeds:
  "shape4 tensor = (b, c, h, w) \<Longrightarrow> tuple_gt (sz, sz) (int h, int w) \<Longrightarrow> sz > int h \<or> sz > int w"
  by (auto simp: tuple_gt_def)

text \<open>
  C4.  On a feature map of height 10 and width 5, the size 8 exceeds the width, but
  the tuple comparison \<open>(8, 8) > (10, 5)\<close> is false: \<open>_conv2d_reshape\<close> does not raise
  its error and goes on to pool the tensor.
\<close>

theorem size_check_is_lexicographic:
  "(8 :: int) > int 5
   \<and> \<not> tuple_gt (8, 8) (int 10, int 5)
   \<and> conv2d_reshape pool (map_10_5 e) (Some 8)
       = thenR (pool (map_10_5 e) 8) (\<lambda>tensor. reshape_permute 1 1 tensor)"
  by (simp add: conv2d_reshape_def map_10_5_def tuple_gt_def)

section \<open>The arithmetic of the weighted distance\<close>

lemma is_fin_rval: "is_fin v \<Longrightarrow> v = Fin (rval v)"
  by (cases v) auto

lemma abs_column_sums_finite:
  assumes "finite_tensor xa"
  shows "abs_column_sums xa = map Fin (weight_sums xa)"
proof -
  have e: "fabs (elem xa i j) = Fin \<bar>rval (elem xa i j)\<bar>" if "i < size0 xa" "j < size1 xa" for i j
  proof -
    from assms that have "is_fin (elem xa i j)" by (simp add: finite_tensor_def list_all_iff)
    from is_fin_rval [OF this] show ?thesis by (metis fabs.simps(1))
  qed
  have "fsum (map (\<lambda>i. fabs (elem xa i j)) [0..<size0 xa]) =
        Fin (sum_list (map (\<lambda>i. \<bar>rval (elem xa i j)\<bar>) [0..<size0 xa]))" if j: "j < size1 xa" for j
  proof -
    have "map (\<lambda>i. fabs (elem xa i j)) [0..<size0 xa] =
          map Fin (map (\<lambda>i. \<bar>rval (elem xa i j)\<bar>) [0..<size0 xa])"
      using e j by simp
    then show ?thesis by (simp only: fsum_Fin)
  qed
  then show ?thesis by (simp add: abs_column_sums_def weight_sums_def)
qed

lemma normalise_Fin:
  "sum_list ws \<noteq> 0 \<Longrightarrow> normalise (map Fin ws) = map Fin (map (\<lambda>c. c / sum_list ws) ws)"
  by (simp add: normalise_def fsum_Fin)


lemma sum_list_divide: "sum_list (map (\<lambda>c. c / s) ws) = sum_list ws / (s :: real)"
  by (induction ws) (auto simp: add_divide_distrib)

lemma normalised_weights_sum:
  "sum_list (weight_sums xa) \<noteq> 0 \<Longrightarrow> sum_list (normalised_weights xa) = 1"
  by (simp add: normalised_weights_def sum_list_divide)

lemma length_weights [simp]:
  "length (weight_sums xa) = size1 xa" "length (normalised_weights xa) = size1 xa"
  by (simp_all add: weight_sums_def normalised_weights_def)





lemma correlations_of_Inr:
  "correlations_of r = Inr diag \<Longrightarrow> \<exists>a b. r = Inr (a, b, diag)"
  by (cases r) (auto simp: correlations_of_def thenR_def)

section \<open>The singular values of an identity matrix\<close>

lemma sum_scaled_product:
  fixes c :: real
  shows "(\<Sum>i\<in>I. \<Sum>j\<in>J. c * f i * g j) = c * (sum f I * sum g J)"
proof -
  have "c * (sum f I * sum g J) = c * (\<Sum>i\<in>I. \<Sum>j\<in>J. f i * g j)"
    by (simp only: sum_product)
  also have "\<dots> = (\<Sum>i\<in>I. \<Sum>j\<in>J. c * (f i * g j))"
    by (simp only: sum_distrib_left)
  also have "\<dots> = (\<Sum>i\<in>I. \<Sum>j\<in>J. c * f i * g j)"
    by (simp only: mult.assoc)
  finally show ?thesis by simp
qed

lemma singular_values_of_identity:
  fixes U V :: "nat \<Rightarrow> nat \<Rightarrow> real" and s :: "nat \<Rightarrow> real"
  assumes UU: "\<And>a b. a < k \<Longrightarrow> b < k \<Longrightarrow> (\<Sum>l<k. U l a * U l b) = (if a = b then 1 else 0)"
    and VV: "\<And>a b. a < k \<Longrightarrow> b < k \<Longrightarrow> (\<Sum>l<k. V l a * V l b) = (if a = b then 1 else 0)"
    and P: "\<And>i j. i < k \<Longrightarrow> j < k \<Longrightarrow> (\<Sum>l<k. U i l * s l * V j l) = (if i = j then 1 else 0)"
    and nn: "\<And>l. l < k \<Longrightarrow> 0 \<le> s l"
    and a: "a < k"
  shows "s a = 1"
proof -
  define c where "c b = (\<Sum>i<k. U i b * V i b)" for b
  have sc: "s b = c b" if b: "b < k" for b
  proof -
    have "(\<Sum>i<k. \<Sum>j<k. U i b * (\<Sum>l<k. U i l * s l * V j l) * V j b)
          = (\<Sum>i<k. \<Sum>j<k. U i b * (if i = j then 1 else 0) * V j b)"
      by (intro sum.cong refl) (simp add: P)
    also have "\<dots> = (\<Sum>i<k. \<Sum>j<k. if i = j then U i b * V j b else 0)"
      by (intro sum.cong refl) simp
    also have "\<dots> = (\<Sum>i<k. U i b * V i b)"
      by (intro sum.cong refl) (simp add: sum.delta')
    finally have 1: "(\<Sum>i<k. \<Sum>j<k. U i b * (\<Sum>l<k. U i l * s l * V j l) * V j b) = c b"
      by (simp add: c_def)
    have "(\<Sum>i<k. \<Sum>j<k. U i b * (\<Sum>l<k. U i l * s l * V j l) * V j b)
          = (\<Sum>i<k. \<Sum>j<k. \<Sum>l<k. s l * (U i b * U i l) * (V j l * V j b))"
      by (intro sum.cong refl) (simp add: sum_distrib_left sum_distrib_right mult_ac)
    also have "\<dots> = (\<Sum>i<k. \<Sum>l<k. \<Sum>j<k. s l * (U i b * U i l) * (V j l * V j b))"
    proof (rule sum.cong [OF refl])
      fix i
      show "(\<Sum>j<k. \<Sum>l<k. s l * (U i b * U i l) * (V j l * V j b))
            = (\<Sum>l<k. \<Sum>j<k. s l * (U i b * U i l) * (V j l * V j b))"
        by (rule sum.swap)
    qed
    also have "\<dots> = (\<Sum>l<k. \<Sum>i<k. \<Sum>j<k. s l * (U i b * U i l) * (V j l * V j b))"
      by (rule sum.swap)
    also have "\<dots> = (\<Sum>l<k. s l * ((\<Sum>i<k. U i b * U i l) * (\<Sum>j<k. V j l * V j b)))"
      by (intro sum.cong refl) (rule sum_scaled_product)
    also have "\<dots> = (\<Sum>l<k. s l * ((if b = l then 1 else 0) * (if l = b then 1 else 0)))"
      using b by (intro sum.cong refl) (simp add: UU VV)
    also have "\<dots> = (\<Sum>l<k. if l = b then s l else 0)"
      by (intro sum.cong refl) simp
    also have "\<dots> = s b" using b by (simp add: sum.delta)
    finally show ?thesis using 1 by simp
  qed
  have c1: "c b \<le> 1" if b: "b < k" for b
  proof -
    have "U i b * V i b \<le> (U i b * U i b + V i b * V i b) / 2" for i
      using sum_squares_bound [of "U i b" "V i b"] by (simp add: power2_eq_square)
    then have "c b \<le> (\<Sum>i<k. (U i b * U i b + V i b * V i b) / 2)"
      unfolding c_def by (intro sum_mono)
    also have "\<dots> = (\<Sum>i<k. U i b * U i b + V i b * V i b) / 2"
      by (rule sum_divide_distrib [symmetric])
    also have "\<dots> = ((\<Sum>i<k. U i b * U i b) + (\<Sum>i<k. V i b * V i b)) / 2"
      by (simp only: sum.distrib)
    also have "\<dots> = 1" using b by (simp add: UU VV)
    finally show ?thesis .
  qed
  have "(\<Sum>i<k. \<Sum>l<k. U i l * s l * V i l) = (\<Sum>i<k. 1)"
    by (intro sum.cong refl) (simp add: P)
  moreover have "(\<Sum>i<k. \<Sum>l<k. U i l * s l * V i l) = (\<Sum>l<k. s l * c l)"
  proof -
    have "(\<Sum>i<k. \<Sum>l<k. U i l * s l * V i l) = (\<Sum>l<k. \<Sum>i<k. U i l * s l * V i l)"
      by (rule sum.swap)
    also have "\<dots> = (\<Sum>l<k. s l * c l)"
      by (intro sum.cong refl) (simp add: c_def sum_distrib_left mult_ac)
    finally show ?thesis .
  qed
  ultimately have "(\<Sum>l<k. s l * c l) = (\<Sum>l<k. 1)" by simp
  then have z: "(\<Sum>l<k. 1 - s l * s l) = 0"
    by (simp add: sum_subtractf sc)
  have nonneg: "0 \<le> 1 - s l * s l" if "l \<in> {..<k}" for l
  proof -
    from that have l: "l < k" by simp
    have "s l \<le> 1" using c1 [OF l] sc [OF l] by simp
    with nn [OF l] have "s l * s l \<le> 1 * 1" by (intro mult_mono) simp_all
    then show ?thesis by simp
  qed
  have "\<forall>l\<in>{..<k}. 1 - s l * s l = 0"
    using sum_nonneg_eq_0_iff [of "{..<k}" "\<lambda>l. 1 - s l * s l"] z nonneg by simp
  with a have "s a * s a = 1" by simp
  then have "(s a - 1) * (s a + 1) = 0" by (simp add: algebra_simps)
  moreover have "s a + 1 \<noteq> 0" using nn [OF a] by simp
  ultimately show ?thesis by simp
qed

section \<open>Finite elements and entries of products\<close>

lemma fadd_Fin_D: "fadd x y = Fin r \<Longrightarrow> is_fin x \<and> is_fin y"
  by (cases x; cases y) (auto split: if_splits)

lemma fmul_Fin_D: "fmul x y = Fin r \<Longrightarrow> is_fin x \<and> is_fin y"
  by (cases x; cases y) (auto simp: inf_of_sign_def split: if_splits)

lemma fsum_Fin_D: "fsum xs = Fin r \<Longrightarrow> x \<in> set xs \<Longrightarrow> is_fin x"
proof (induction xs arbitrary: r)
  case Nil
  then show ?case by simp
next
  case (Cons y ys)
  from Cons.prems(1) have f: "is_fin y \<and> is_fin (fsum ys)"
    using fadd_Fin_D by simp
  then obtain r' where "fsum ys = Fin r'" by (cases "fsum ys") auto
  with Cons.IH Cons.prems(2) f show ?case by auto
qed

lemma sum_list_upt: "sum_list (map g [0..<n]) = (\<Sum>l<n. g l)"
  by (simp add: interv_sum_list_conv_sum_set_nat atLeast0LessThan)

lemma fsum_upt_Fin:
  assumes "\<And>l. l < n \<Longrightarrow> f l = Fin (g l)"
  shows "fsum (map f [0..<n]) = Fin (\<Sum>l<n. g l)"
proof -
  have "map f [0..<n] = map Fin (map g [0..<n])" using assms by simp
  then show ?thesis by (simp only: fsum_Fin sum_list_upt)
qed

lemma rows_entries:
  assumes "to_rows t = map (\<lambda>i. map (\<lambda>j. f i j) [0..<size1 t]) [0..<size0 t]"
    and "i < size0 t" "j < size1 t"
  shows "elem t i j = f i j"
proof -
  from assms(1,2) have "map (\<lambda>j. elem t i j) [0..<size1 t] = map (\<lambda>j. f i j) [0..<size1 t]"
    unfolding to_rows_def by (metis (no_types, lifting) add_0 diff_zero length_upt nth_map nth_upt)
  with assms(3) show ?thesis
    by (metis (no_types, lifting) add_0 diff_zero length_upt nth_map nth_upt)
qed

lemma identity_entries:
  assumes "to_rows t = identity_rows k" "size0 t = k" "size1 t = k" "i < k" "j < k"
  shows "elem t i j = Fin (if i = j then 1 else 0)"
  using rows_entries [of t "\<lambda>i j. Fin (if i = j then 1 else 0)" i j] assms
  by (simp add: identity_rows_def)

section \<open>The contract of the decomposition at a Gram matrix\<close>

lemma gram_entries:
  assumes "rows_of (matmul (transpose_t u) u) = Some (identity_rows k)" "size1 u = k"
    and "a < k" "b < k"
  shows "fsum (map (\<lambda>l. fmul (elem u l a) (elem u l b)) [0..<size0 u]) = Fin (if a = b then 1 else 0)"
proof -
  let ?g = "\<lparr>size0 = size1 u, size1 = size1 u,
             elem = (\<lambda>i j. fsum (map (\<lambda>l. fmul (elem u l i) (elem u l j)) [0..<size0 u]))\<rparr>"
  have m: "matmul (transpose_t u) u = Inr ?g"
    by (simp add: matmul_def transpose_t_def)
  with assms(1) have "to_rows ?g = identity_rows k" by (simp add: rows_of_def)
  from identity_entries [OF this _ _ assms(3,4)] assms(2) show ?thesis by simp
qed

lemma orthonormal_columns_finite:
  assumes "rows_of (matmul (transpose_t u) u) = Some (identity_rows k)" "size1 u = k"
    and "l < size0 u" "a < k"
  shows "is_fin (elem u l a)"
proof -
  have "fsum (map (\<lambda>l. fmul (elem u l a) (elem u l a)) [0..<size0 u]) = Fin 1"
    using gram_entries [OF assms(1,2,4,4)] by simp
  moreover have "fmul (elem u l a) (elem u l a) \<in> set (map (\<lambda>l. fmul (elem u l a) (elem u l a)) [0..<size0 u])"
    using assms(3) by simp
  ultimately have "is_fin (fmul (elem u l a) (elem u l a))" by (rule fsum_Fin_D)
  then obtain r where "fmul (elem u l a) (elem u l a) = Fin r"
    by (cases "fmul (elem u l a) (elem u l a)") auto
  then show ?thesis using fmul_Fin_D by blast
qed

lemma gram_real:
  assumes g: "rows_of (matmul (transpose_t u) u) = Some (identity_rows k)" and s: "size1 u = k"
    and a: "a < k" and b: "b < k"
  shows "(\<Sum>l<size0 u. rval (elem u l a) * rval (elem u l b)) = (if a = b then 1 else 0)"
proof -
  have "fmul (elem u l a) (elem u l b) = Fin (rval (elem u l a) * rval (elem u l b))"
    if "l < size0 u" for l
    using is_fin_rval [OF orthonormal_columns_finite [OF g s that a]]
      is_fin_rval [OF orthonormal_columns_finite [OF g s that b]]
    by (metis fmul.simps(1))
  from fsum_upt_Fin [of "size0 u" "\<lambda>l. fmul (elem u l a) (elem u l b)", OF this]
    gram_entries [OF g s a b]
  show ?thesis by simp
qed

lemma correlations_of_identity_gram:
  assumes svd: "is_svd_of uu (u, d, v)"
    and id: "to_rows uu = identity_rows k" and s0: "size0 uu = k" and s1: "size1 uu = k"
  shows "d = replicate k (Fin 1)"
proof -
  from svd s0 s1 have su0: "size0 u = k" and su1: "size1 u = k" and sv0: "size0 v = k"
    and sv1: "size1 v = k" and ld: "length d = k"
    and fin: "list_all (\<lambda>x. is_fin x \<and> 0 \<le> rval x) d"
    and prod: "rows_of (thenR (matmul u (diag_t d)) (\<lambda>m. matmul m (transpose_t v))) = Some (to_rows uu)"
    and gu: "rows_of (matmul (transpose_t u) u) = Some (identity_rows k)"
    and gv: "rows_of (matmul (transpose_t v) v) = Some (identity_rows k)"
    by (auto simp: is_svd_of_def)
  define U where "U i j = rval (elem u i j)" for i j
  define V where "V i j = rval (elem v i j)" for i j
  define s where "s l = rval (d ! l)" for l
  have eu: "elem u i j = Fin (U i j)" if "i < k" "j < k" for i j
    unfolding U_def using orthonormal_columns_finite [OF gu su1, of i j] that su0
    by (simp add: is_fin_rval [symmetric])
  have ev: "elem v i j = Fin (V i j)" if "i < k" "j < k" for i j
    unfolding V_def using orthonormal_columns_finite [OF gv sv1, of i j] that sv0
    by (simp add: is_fin_rval [symmetric])
  have ed: "d ! l = Fin (s l)" "0 \<le> s l" if "l < k" for l
    using fin that ld unfolding s_def by (auto simp: list_all_length is_fin_rval [symmetric])
  have UU: "(\<Sum>l<k. U l a * U l b) = (if a = b then 1 else 0)" if "a < k" "b < k" for a b
    using gram_real [OF gu su1 that] by (simp add: U_def su0)
  have VV: "(\<Sum>l<k. V l a * V l b) = (if a = b then 1 else 0)" if "a < k" "b < k" for a b
    using gram_real [OF gv sv1 that] by (simp add: V_def sv0)
  have P: "(\<Sum>l<k. U i l * s l * V j l) = (if i = j then 1 else 0)" if i: "i < k" and j: "j < k" for i j
  proof -
    let ?m = "\<lambda>i l. fsum (map (\<lambda>p. fmul (elem u i p) (elem (diag_t d) p l)) [0..<k])"
    let ?r = "\<lparr>size0 = k, size1 = k,
               elem = (\<lambda>i j. fsum (map (\<lambda>l. fmul (?m i l) (elem v j l)) [0..<k]))\<rparr>"
    have "thenR (matmul u (diag_t d)) (\<lambda>m. matmul m (transpose_t v)) = Inr ?r"
      by (simp add: matmul_def thenR_def diag_t_def transpose_t_def su0 su1 sv0 sv1 ld)
    with prod id have "to_rows ?r = identity_rows k" by (simp add: rows_of_def)
    from identity_entries [OF this _ _ i j]
    have r: "fsum (map (\<lambda>l. fmul (?m i l) (elem v j l)) [0..<k]) = Fin (if i = j then 1 else 0)"
      by simp
    have m: "?m i l = Fin (U i l * s l)" if l: "l < k" for l
    proof -
      have "fmul (elem u i p) (elem (diag_t d) p l) = Fin (if p = l then U i p * s p else 0)"
        if "p < k" for p
        using eu [OF i that] ed(1) [OF that] by (cases "p = l") (simp_all add: diag_t_def)
      from fsum_upt_Fin [of k "\<lambda>p. fmul (elem u i p) (elem (diag_t d) p l)", OF this]
      show ?thesis using l by (simp add: sum.delta)
    qed
    have "fmul (?m i l) (elem v j l) = Fin (U i l * s l * V j l)" if "l < k" for l
      using m [OF that] ev [OF j that] by simp
    from fsum_upt_Fin [of k "\<lambda>l. fmul (?m i l) (elem v j l)", OF this] r
    show ?thesis by simp
  qed
  have "d ! a = Fin 1" if a: "a < k" for a
    using singular_values_of_identity [of k U V s a, OF UU VV P ed(2) a] ed(1) [OF a] by simp
  then show ?thesis using ld by (simp add: list_eq_iff_nth_eq)
qed

section \<open>When the weights sum to one\<close>

lemma fdiv_Fin_D:
  "fdiv x y = Fin r \<Longrightarrow> is_fin x \<and> (y = PInf \<or> y = NInf \<or> (\<exists>b. y = Fin b \<and> b \<noteq> 0))"
  by (cases x; cases y) (auto simp: inf_of_sign_def split: if_splits)

lemma fdiv_by_inf: "y = PInf \<or> y = NInf \<Longrightarrow> \<not> is_fin x \<Longrightarrow> \<not> is_fin (fdiv x y)"
  by (cases x; cases y) auto

lemma fabs_fin: "is_fin (fabs x) = is_fin x"
  by (cases x) auto

lemma fsum_all_fin: "(\<And>x. x \<in> set xs \<Longrightarrow> is_fin x) \<Longrightarrow> is_fin (fsum xs)"
proof -
  assume "\<And>x. x \<in> set xs \<Longrightarrow> is_fin x"
  then have "\<forall>x\<in>set xs. is_fin x" by blast
  from all_fin_map [OF this] obtain rs where "xs = map Fin rs" by blast
  then show ?thesis by (simp add: fsum_Fin)
qed

lemma fin_cases: "is_fin x \<Longrightarrow> \<exists>r. x = Fin r"
  by (cases x) auto

lemma finite_tensor_iff:
  "finite_tensor t = (\<forall>i<size0 t. \<forall>j<size1 t. is_fin (elem t i j))"
  by (auto simp: finite_tensor_def list_all_iff)

lemma abs_column_sums_fin_D:
  assumes "\<And>c. c \<in> set (abs_column_sums xa) \<Longrightarrow> is_fin c"
  shows "finite_tensor xa"
  unfolding finite_tensor_iff
proof (intro allI impI)
  fix i j assume i: "i < size0 xa" and j: "j < size1 xa"
  let ?col = "map (\<lambda>i. fabs (elem xa i j)) [0..<size0 xa]"
  have "fsum ?col \<in> set (abs_column_sums xa)" using j by (auto simp: abs_column_sums_def)
  from fin_cases [OF assms [OF this]] obtain r where "fsum ?col = Fin r" ..
  moreover have "fabs (elem xa i j) \<in> set ?col" using i by simp
  ultimately have "is_fin (fabs (elem xa i j))" by (rule fsum_Fin_D)
  then show "is_fin (elem xa i j)" by (simp add: fabs_fin)
qed

text \<open>The normalised weights sum to 1 exactly when the projection is finite and its
  total weight is not zero.\<close>

lemma weights_sum_to_one_iff:
  "(fsum (normalise (abs_column_sums xa)) = Fin 1)
   = (finite_tensor xa \<and> sum_list (weight_sums xa) \<noteq> 0)"
proof
  assume a: "finite_tensor xa \<and> sum_list (weight_sums xa) \<noteq> 0"
  then have "normalise (abs_column_sums xa) = map Fin (normalised_weights xa)"
    by (simp add: abs_column_sums_finite normalise_Fin normalised_weights_def)
  then show "fsum (normalise (abs_column_sums xa)) = Fin 1"
    using normalised_weights_sum [of xa] a by (simp only: fsum_Fin) simp
next
  let ?alpha = "abs_column_sums xa"
  let ?T = "fsum ?alpha"
  assume one: "fsum (normalise ?alpha) = Fin 1"
  have ne: "?alpha \<noteq> []"
  proof
    assume "?alpha = []"
    with one show False by (simp add: normalise_def)
  qed
  have q: "is_fin (fdiv c ?T)" if "c \<in> set ?alpha" for c
  proof -
    from that have "fdiv c ?T \<in> set (normalise ?alpha)" by (simp add: normalise_def)
    with one show ?thesis by (rule fsum_Fin_D)
  qed
  have cfin: "is_fin c" if "c \<in> set ?alpha" for c
    using fdiv_Fin_D fin_cases [OF q [OF that]] by blast
  then have "is_fin ?T" by (rule fsum_all_fin)
  then obtain t where t: "?T = Fin t" using fin_cases by blast
  from ne obtain c where c: "c \<in> set ?alpha" by (cases ?alpha) auto
  from fin_cases [OF q [OF c]] fdiv_Fin_D t have t0: "t \<noteq> 0" by fastforce
  have f: "finite_tensor xa" using cfin by (rule abs_column_sums_fin_D)
  from abs_column_sums_finite [OF f] t have "t = sum_list (weight_sums xa)"
    by (simp add: fsum_Fin)
  with t0 f show "finite_tensor xa \<and> sum_list (weight_sums xa) \<noteq> 0" by simp
qed

lemma fmul_one: "fmul p (Fin 1) = p"
  by (cases p) (auto simp: inf_of_sign_def)

lemma dot_ones:
  "length w = n \<Longrightarrow> dot w (replicate n (Fin 1)) = Inr (fsum w)"
proof -
  assume l: "length w = n"
  have "map (\<lambda>(p, q). fmul p q) (zip w (replicate (length w) (Fin 1))) = w"
    by (induction w) (auto simp: fmul_one)
  with l show ?thesis by (auto simp: dot_def)
qed

lemma one_minus_zero_iff: "(fsub (Fin 1) z = Fin 0) = (z = Fin 1)"
  by (cases z) (auto simp: fsub_def)

section \<open>The distance of a matrix to itself\<close>

lemma svd_contract_atD:
  "svd_contract_at svd t \<Longrightarrow> \<exists>u s v. svd t = Inr (u, s, v) \<and> is_svd_of t (u, s, v)"
  by (cases "svd t") (auto simp: svd_contract_at_def)

lemma matmul_ok:
  "size1 a = size0 b \<Longrightarrow> \<exists>c. matmul a b = Inr c \<and> size0 c = size0 a \<and> size1 c = size1 b"
  by (simp add: matmul_def)

text \<open>
  The canonical correlations of a matrix with itself: when the decomposition honours its
  contract at the matrix and at its Gram matrix, \<open>_svd_cca\<close> succeeds and every
  correlation is 1.
\<close>

lemma self_svd_cca:
  assumes c: "svd_contract_at svd xc" and g: "gram_of svd xc = Inr uu"
    and cu: "svd_contract_at svd uu" and r: "size1 xc \<le> size0 xc"
  shows "\<exists>a b. svd_cca svd xc xc = Inr (a, b, replicate (size1 xc) (Fin 1))
               \<and> size0 a = size1 xc \<and> size1 a = size1 xc"
proof -
  let ?n = "size1 xc"
  from svd_contract_atD [OF c] obtain u1 s1 v1
    where s: "svd xc = Inr (u1, s1, v1)" and i: "is_svd_of xc (u1, s1, v1)" by blast
  from i r have l1: "length s1 = ?n" and su1: "size1 u1 = ?n" and sv0: "size0 v1 = ?n"
    and sv1: "size1 v1 = ?n"
    and gu: "rows_of (matmul (transpose_t u1) u1) = Some (identity_rows ?n)"
    by (auto simp: is_svd_of_def min_def)
  from g s have m: "matmul (transpose_t u1) u1 = Inr uu"
    by (simp add: gram_of_def thenR_def)
  then have uu: "size0 uu = ?n" "size1 uu = ?n"
    using su1 by (auto simp: matmul_def transpose_t_def)
  from gu m have id: "to_rows uu = identity_rows ?n" by (simp add: rows_of_def)
  from svd_contract_atD [OF cu] obtain u d v
    where s2: "svd uu = Inr (u, d, v)" and i2: "is_svd_of uu (u, d, v)" by blast
  from correlations_of_identity_gram [OF i2 id uu] have d: "d = replicate ?n (Fin 1)" .
  from i2 uu have su: "size0 u = ?n" "size1 u = ?n" and sv: "size0 v = ?n" "size1 v = ?n"
    by (auto simp: is_svd_of_def)
  have sd: "size0 (diag_t (reciprocal s1)) = ?n" "size1 (diag_t (reciprocal s1)) = ?n"
    by (simp_all add: diag_t_def reciprocal_def l1)
  from matmul_ok [of v1 "diag_t (reciprocal s1)"] sv1 sd obtain m1
    where m1: "matmul v1 (diag_t (reciprocal s1)) = Inr m1" "size0 m1 = ?n" "size1 m1 = ?n"
    using sv0 by auto
  from matmul_ok [of m1 u] m1 su obtain a
    where a: "matmul m1 u = Inr a" "size0 a = ?n" "size1 a = ?n" by auto
  from matmul_ok [of m1 v] m1 sv obtain b
    where b: "matmul m1 v = Inr b" by auto
  show ?thesis
    by (simp add: svd_cca_def s m s2 d thenR_def m1 a b)
qed

lemma size_zero_mean: "zero_mean t 0 = Inr c \<Longrightarrow> size0 c = size0 t \<and> size1 c = size1 t"
  by (auto simp: zero_mean_def)

lemma self_underscore_cca:
  assumes z: "zero_mean x 0 = Inr xc" and c: "svd_contract_at svd xc"
    and g: "gram_of svd xc = Inr uu" and cu: "svd_contract_at svd uu"
    and r: "size1 x \<le> size0 x" and m: "m = ''svd'' \<or> m = ''qr''"
  shows "\<exists>a b. underscore_cca svd x x m = Inr (a, b, replicate (size1 x) (Fin 1))
               \<and> size0 a = size1 x \<and> size1 a = size1 x"
proof -
  from size_zero_mean [OF z] r have "size1 xc \<le> size0 xc" by simp
  from self_svd_cca [OF c g cu this] size_zero_mean [OF z]
  show ?thesis using r m by (auto simp: underscore_cca_def z thenR_def)
qed

lemma reduction_shape:
  assumes c: "svd_contract_at svd x" and red: "svd_reduction svd x r = Inr xr"
  shows "size1 xr \<le> size0 xr"
proof -
  from svd_contract_atD [OF c] obtain u s v
    where s: "svd x = Inr (u, s, v)" and i: "is_svd_of x (u, s, v)" by blast
  from i have v: "size0 v = size1 x" "size1 v \<le> size0 x" by (auto simp: is_svd_of_def)
  from svd_reduction_Inr [of svd x u s v r, OF s v(1)] red v(2)
  show ?thesis by auto
qed

lemma fsum_ones: "fsum (replicate n (Fin 1)) = Fin (real n)"
  by (induction n) auto

lemma svcca_self:
  assumes c: "svd_contract_at svd x" and red: "svd_reduction svd x default_accept_rate = Inr xr"
    and k: "0 < size1 xr" and z: "zero_mean xr 0 = Inr xc" and cc: "svd_contract_at svd xc"
    and g: "gram_of svd xc = Inr uu" and cu: "svd_contract_at svd uu"
    and m: "m = ''svd'' \<or> m = ''qr''"
  shows "svcca_distance svd x x m = Inr (Fin 0)"
proof -
  from self_underscore_cca [OF z cc g cu reduction_shape [OF c red] m] obtain a b
    where "underscore_cca svd xr xr m = Inr (a, b, replicate (size1 xr) (Fin 1))" by blast
  then show ?thesis
    using k by (simp add: svcca_distance_def red thenR_def fsum_ones fsub_def)
qed

lemma pwcca_self:
  assumes r: "size1 x \<le> size0 x" and z: "zero_mean x 0 = Inr xc" and cc: "svd_contract_at svd xc"
    and g: "gram_of svd xc = Inr uu" and cu: "svd_contract_at svd uu"
    and m: "m = ''svd'' \<or> m = ''qr''"
  shows "\<exists>xa. projection_of x (underscore_cca svd x x m) = Inr xa
           \<and> (pwcca_distance svd x x m = Inr (Fin 0))
               = (finite_tensor xa \<and> sum_list (weight_sums xa) \<noteq> 0)"
proof -
  from self_underscore_cca [OF z cc g cu r m] obtain a b
    where u: "underscore_cca svd x x m = Inr (a, b, replicate (size1 x) (Fin 1))"
      and sa: "size0 a = size1 x" "size1 a = size1 x" by blast
  let ?xa = "\<lparr>size0 = size0 x, size1 = size1 a,
              elem = (\<lambda>i j. fsum (map (\<lambda>l. fmul (elem x i l) (elem a l j)) [0..<size1 x]))\<rparr>"
  have xa: "matmul x a = Inr ?xa" using sa by (simp add: matmul_def)
  have l: "length (normalise (abs_column_sums ?xa)) = size1 x"
    using sa by (simp add: normalise_def abs_column_sums_def)
  have "pwcca_distance svd x x m = Inr (fsub (Fin 1) (fsum (normalise (abs_column_sums ?xa))))"
    by (simp add: pwcca_distance_def u xa thenR_def Let_def dot_ones [OF l])
  then have "(pwcca_distance svd x x m = Inr (Fin 0))
      = (finite_tensor ?xa \<and> sum_list (weight_sums ?xa) \<noteq> 0)"
    by (simp add: one_minus_zero_iff weights_sum_to_one_iff)
  moreover have "projection_of x (underscore_cca svd x x m) = Inr ?xa"
    by (simp add: projection_of_def u xa thenR_def)
  ultimately show ?thesis by blast
qed

section \<open>The projection of a matrix on its own directions is not zero\<close>

lemma sum_delta_product:
  fixes f :: "nat \<Rightarrow> nat \<Rightarrow> real"
  shows "(\<Sum>p<n. \<Sum>q<n. f p q * (if p = q then 1 else 0)) = (\<Sum>p<n. f p p)"
proof (rule sum.cong [OF refl])
  fix p assume "p \<in> {..<n}"
  have "(\<Sum>q<n. f p q * (if p = q then 1 else 0)) = (\<Sum>q<n. if p = q then f p q else 0)"
    by (intro sum.cong refl) simp
  also have "\<dots> = f p p" using \<open>p \<in> {..<n}\<close> by (simp add: sum.delta')
  finally show "(\<Sum>q<n. f p q * (if p = q then 1 else 0)) = f p p" .
qed

text \<open>
  The projection of a matrix on its own canonical directions is not zero when the
  centred matrix has no zero singular value and there is at least one feature.
\<close>

lemma projection_not_zero:
  fixes X Xc U1 V1 U A :: "nat \<Rightarrow> nat \<Rightarrow> real" and s :: "nat \<Rightarrow> real"
  assumes n: "0 < n" and m: "0 < m"
    and centred: "\<And>i j. i < m \<Longrightarrow> j < n \<Longrightarrow> Xc i j = X i j - (\<Sum>r<m. X r j) / real m"
    and prod: "\<And>i j. i < m \<Longrightarrow> j < n \<Longrightarrow> (\<Sum>l<n. U1 i l * s l * V1 j l) = Xc i j"
    and U1U1: "\<And>a b. a < n \<Longrightarrow> b < n \<Longrightarrow> (\<Sum>l<m. U1 l a * U1 l b) = (if a = b then 1 else 0)"
    and V1V1: "\<And>a b. a < n \<Longrightarrow> b < n \<Longrightarrow> (\<Sum>l<n. V1 l a * V1 l b) = (if a = b then 1 else 0)"
    and UU: "\<And>a b. a < n \<Longrightarrow> b < n \<Longrightarrow> (\<Sum>l<n. U l a * U l b) = (if a = b then 1 else 0)"
    and s0: "\<And>l. l < n \<Longrightarrow> s l \<noteq> 0"
    and A: "\<And>i j. i < n \<Longrightarrow> j < n \<Longrightarrow> A i j = (\<Sum>l<n. V1 i l / s l * U l j)"
  shows "\<exists>i<m. \<exists>j<n. (\<Sum>l<n. X i l * A l j) \<noteq> 0"
proof (rule ccontr)
  assume "\<not> (\<exists>i<m. \<exists>j<n. (\<Sum>l<n. X i l * A l j) \<noteq> 0)"
  then have zero: "(\<Sum>l<n. X i l * A l j) = 0" if "i < m" "j < n" for i j
    using that by auto
  define W where "W i j = (\<Sum>l<n. Xc i l * A l j)" for i j
  define mu where "mu l = (\<Sum>r<m. X r l) / real m" for l
  define c where "c j = (\<Sum>l<n. mu l * A l j)" for j
  have W1: "W i j = - c j" if i: "i < m" and j: "j < n" for i j
  proof -
    have "W i j = (\<Sum>l<n. X i l * A l j - mu l * A l j)"
      unfolding W_def by (intro sum.cong refl) (simp add: centred i mu_def algebra_simps)
    also have "\<dots> = (\<Sum>l<n. X i l * A l j) - c j"
      by (simp add: sum_subtractf c_def)
    finally show ?thesis using zero [OF i j] by simp
  qed
  have colsum: "(\<Sum>i<m. Xc i l) = 0" if l: "l < n" for l
  proof -
    have "(\<Sum>i<m. Xc i l) = (\<Sum>i<m. X i l - mu l)"
      by (intro sum.cong refl) (simp add: centred l mu_def)
    also have "\<dots> = (\<Sum>i<m. X i l) - real m * mu l"
      by (simp add: sum_subtractf)
    also have "\<dots> = 0" using m by (simp add: mu_def)
    finally show ?thesis .
  qed
  have W2: "(\<Sum>i<m. W i j) = 0" if j: "j < n" for j
  proof -
    have "(\<Sum>i<m. W i j) = (\<Sum>l<n. \<Sum>i<m. Xc i l * A l j)"
      unfolding W_def by (rule sum.swap)
    also have "\<dots> = (\<Sum>l<n. (\<Sum>i<m. Xc i l) * A l j)"
      by (simp add: sum_distrib_right)
    also have "\<dots> = 0" by (simp add: colsum)
    finally show ?thesis .
  qed
  have Wz: "W i j = 0" if i: "i < m" and j: "j < n" for i j
  proof -
    have "(\<Sum>i<m. W i j) = (\<Sum>i<m. - c j)"
      by (intro sum.cong refl) (simp add: W1 j)
    then have "real m * c j = 0" using W2 [OF j] by simp
    with m have "c j = 0" by simp
    with W1 [OF i j] show ?thesis by simp
  qed
  have W3: "W i j = (\<Sum>p<n. U1 i p * U p j)" if i: "i < m" and j: "j < n" for i j
  proof -
    have "W i j = (\<Sum>l<n. (\<Sum>p<n. U1 i p * s p * V1 l p) * (\<Sum>q<n. V1 l q / s q * U q j))"
      unfolding W_def by (intro sum.cong refl) (simp add: prod i A j)
    also have "\<dots> = (\<Sum>l<n. \<Sum>p<n. \<Sum>q<n. (U1 i p * s p / s q * U q j) * (V1 l p * V1 l q))"
      by (intro sum.cong refl) (simp add: sum_product mult_ac)
    also have "\<dots> = (\<Sum>p<n. \<Sum>l<n. \<Sum>q<n. (U1 i p * s p / s q * U q j) * (V1 l p * V1 l q))"
      by (rule sum.swap)
    also have "\<dots> = (\<Sum>p<n. \<Sum>q<n. \<Sum>l<n. (U1 i p * s p / s q * U q j) * (V1 l p * V1 l q))"
    proof (rule sum.cong [OF refl])
      fix p
      show "(\<Sum>l<n. \<Sum>q<n. (U1 i p * s p / s q * U q j) * (V1 l p * V1 l q))
            = (\<Sum>q<n. \<Sum>l<n. (U1 i p * s p / s q * U q j) * (V1 l p * V1 l q))"
        by (rule sum.swap)
    qed
    also have "\<dots> = (\<Sum>p<n. \<Sum>q<n. (U1 i p * s p / s q * U q j) * (if p = q then 1 else 0))"
    proof (intro sum.cong refl)
      fix p q assume "p \<in> {..<n}" "q \<in> {..<n}"
      then have "(\<Sum>l<n. V1 l p * V1 l q) = (if p = q then 1 else 0)" by (simp add: V1V1)
      then show "(\<Sum>l<n. (U1 i p * s p / s q * U q j) * (V1 l p * V1 l q))
                 = (U1 i p * s p / s q * U q j) * (if p = q then 1 else 0)"
        by (simp only: sum_distrib_left [symmetric])
    qed
    also have "\<dots> = (\<Sum>p<n. U1 i p * s p / s p * U p j)"
      by (rule sum_delta_product)
    also have "\<dots> = (\<Sum>p<n. U1 i p * U p j)"
      by (intro sum.cong refl) (simp add: s0)
    finally show ?thesis .
  qed
  have W4: "(\<Sum>i<m. W i 0 * W i 0) = 1"
  proof -
    have "(\<Sum>i<m. W i 0 * W i 0) = (\<Sum>i<m. (\<Sum>p<n. U1 i p * U p 0) * (\<Sum>q<n. U1 i q * U q 0))"
      by (intro sum.cong refl) (simp add: W3 n)
    also have "\<dots> = (\<Sum>i<m. \<Sum>p<n. \<Sum>q<n. (U p 0 * U q 0) * (U1 i p * U1 i q))"
      by (intro sum.cong refl) (simp add: sum_product mult_ac)
    also have "\<dots> = (\<Sum>p<n. \<Sum>i<m. \<Sum>q<n. (U p 0 * U q 0) * (U1 i p * U1 i q))"
      by (rule sum.swap)
    also have "\<dots> = (\<Sum>p<n. \<Sum>q<n. \<Sum>i<m. (U p 0 * U q 0) * (U1 i p * U1 i q))"
    proof (rule sum.cong [OF refl])
      fix p
      show "(\<Sum>i<m. \<Sum>q<n. (U p 0 * U q 0) * (U1 i p * U1 i q))
            = (\<Sum>q<n. \<Sum>i<m. (U p 0 * U q 0) * (U1 i p * U1 i q))"
        by (rule sum.swap)
    qed
    also have "\<dots> = (\<Sum>p<n. \<Sum>q<n. (U p 0 * U q 0) * (if p = q then 1 else 0))"
    proof (intro sum.cong refl)
      fix p q assume "p \<in> {..<n}" "q \<in> {..<n}"
      then have "(\<Sum>i<m. U1 i p * U1 i q) = (if p = q then 1 else 0)" by (simp add: U1U1)
      then show "(\<Sum>i<m. (U p 0 * U q 0) * (U1 i p * U1 i q))
                 = (U p 0 * U q 0) * (if p = q then 1 else 0)"
        by (simp only: sum_distrib_left [symmetric])
    qed
    also have "\<dots> = (\<Sum>p<n. U p 0 * U p 0)"
      by (rule sum_delta_product)
    also have "\<dots> = 1" using UU [OF n n] by simp
    finally show ?thesis .
  qed
  have "(\<Sum>i<m. W i 0 * W i 0) = 0" by (simp add: Wz n)
  with W4 show False by simp
qed

lemma matmul_InrD:
  assumes "matmul a b = Inr c"
  shows "size1 a = size0 b" "size0 c = size0 a" "size1 c = size1 b"
    "elem c i j = fsum (map (\<lambda>l. fmul (elem a i l) (elem b l j)) [0..<size1 a])"
  using assms by (auto simp: matmul_def split: if_splits)

lemma to_rows_eq_entries:
  assumes "to_rows a = to_rows b" "size0 a = size0 b" "size1 a = size1 b"
    and "i < size0 a" "j < size1 a"
  shows "elem a i j = elem b i j"
  using rows_entries [of a "elem b" i j] assms by (simp add: to_rows_def)

text \<open>The entries of a decomposed matrix, as real numbers.\<close>

lemma svd_product_entries:
  assumes svd: "is_svd_of t (u, s, v)" and r: "size1 t \<le> size0 t"
    and i: "i < size0 t" and j: "j < size1 t"
  shows "elem t i j = Fin (\<Sum>l<size1 t. rval (elem u i l) * rval (s ! l) * rval (elem v j l))"
proof -
  let ?n = "size1 t"
  from svd r have su0: "size0 u = size0 t" and su1: "size1 u = ?n" and sv0: "size0 v = ?n"
    and sv1: "size1 v = ?n" and ls: "length s = ?n"
    and fin: "list_all (\<lambda>x. is_fin x \<and> 0 \<le> rval x) s"
    and prod: "rows_of (thenR (matmul u (diag_t s)) (\<lambda>m. matmul m (transpose_t v))) = Some (to_rows t)"
    and gu: "rows_of (matmul (transpose_t u) u) = Some (identity_rows ?n)"
    and gv: "rows_of (matmul (transpose_t v) v) = Some (identity_rows ?n)"
    by (auto simp: is_svd_of_def min_def)
  have eu: "elem u i l = Fin (rval (elem u i l))" if "l < ?n" for l
    using orthonormal_columns_finite [OF gu su1, of i l] that i su0
    by (simp add: is_fin_rval [symmetric])
  have ev: "elem v j l = Fin (rval (elem v j l))" if "l < ?n" for l
    using orthonormal_columns_finite [OF gv sv1, of j l] that j sv0
    by (simp add: is_fin_rval [symmetric])
  have ed: "s ! l = Fin (rval (s ! l))" if "l < ?n" for l
    using fin that ls by (auto simp: list_all_length is_fin_rval [symmetric])
  let ?m = "\<lambda>i l. fsum (map (\<lambda>p. fmul (elem u i p) (elem (diag_t s) p l)) [0..<?n])"
  let ?r = "\<lparr>size0 = size0 t, size1 = ?n,
             elem = (\<lambda>i j. fsum (map (\<lambda>l. fmul (?m i l) (elem v j l)) [0..<?n]))\<rparr>"
  have "thenR (matmul u (diag_t s)) (\<lambda>m. matmul m (transpose_t v)) = Inr ?r"
    by (simp add: matmul_def thenR_def diag_t_def transpose_t_def su0 su1 sv0 sv1 ls)
  with prod have "to_rows ?r = to_rows t" by (simp add: rows_of_def)
  from to_rows_eq_entries [OF this _ _ _ _, of i j] i j
  have e: "elem t i j = fsum (map (\<lambda>l. fmul (?m i l) (elem v j l)) [0..<?n])" by simp
  have m: "?m i l = Fin (rval (elem u i l) * rval (s ! l))" if l: "l < ?n" for l
  proof -
    have "fmul (elem u i p) (elem (diag_t s) p l)
          = Fin (if p = l then rval (elem u i p) * rval (s ! p) else 0)" if "p < ?n" for p
      using eu [OF that] ed [OF that]
      by (cases "p = l") (simp_all add: diag_t_def, (metis fmul.simps(1) mult_zero_right)+)
    from fsum_upt_Fin [of ?n "\<lambda>p. fmul (elem u i p) (elem (diag_t s) p l)", OF this]
    show ?thesis using l by (simp add: sum.delta)
  qed
  have "fmul (?m i l) (elem v j l) = Fin (rval (elem u i l) * rval (s ! l) * rval (elem v j l))"
    if "l < ?n" for l
    using m [OF that] ev [OF that] by (metis fmul.simps(1))
  from fsum_upt_Fin [of ?n "\<lambda>l. fmul (?m i l) (elem v j l)", OF this] e
  show ?thesis by simp
qed

lemma fsub_Fin_D: "fsub a b = Fin r \<Longrightarrow> is_fin a \<and> is_fin b"
  unfolding fsub_def by (cases a; cases b) (auto split: if_splits)

lemma sum_list_zero_entries:
  fixes f :: "nat \<Rightarrow> real"
  assumes "sum_list (map f [0..<k]) = 0" "\<And>i. i < k \<Longrightarrow> 0 \<le> f i" "i < k"
  shows "f i = 0"
proof -
  have "\<And>x. x \<in> set (map f [0..<k]) \<Longrightarrow> 0 \<le> x" using assms(2) by auto
  from sum_list_nonneg_eq_0_iff [of "map f [0..<k]", OF this] assms(1,3) show ?thesis by auto
qed

lemma self_projection_weights:
  assumes n: "0 < size1 x" and r: "size1 x \<le> size0 x"
    and z: "zero_mean x 0 = Inr xc"
    and s: "svd xc = Inr (u1, s1, v1)" and i1: "is_svd_of xc (u1, s1, v1)"
    and nz: "list_all (\<lambda>s. s \<noteq> Fin 0) s1"
    and g: "gram_of svd xc = Inr uu" and cu: "svd_contract_at svd uu"
    and mth: "m = ''svd'' \<or> m = ''qr''"
    and p: "projection_of x (underscore_cca svd x x m) = Inr xa"
  shows "finite_tensor xa \<and> sum_list (weight_sums xa) \<noteq> 0"
proof -
  let ?n = "size1 x" and ?m = "size0 x"
  have m0: "0 < ?m" using n r by simp
  from size_zero_mean [OF z] have sxc: "size0 xc = ?m" "size1 xc = ?n" by simp_all
  have rc: "size1 xc \<le> size0 xc" using r sxc by simp
  from i1 rc sxc have su1: "size0 u1 = ?m" "size1 u1 = ?n" and sv1: "size0 v1 = ?n" "size1 v1 = ?n"
    and ls: "length s1 = ?n"
    and fin: "list_all (\<lambda>x. is_fin x \<and> 0 \<le> rval x) s1"
    and gu1: "rows_of (matmul (transpose_t u1) u1) = Some (identity_rows ?n)"
    and gv1: "rows_of (matmul (transpose_t v1) v1) = Some (identity_rows ?n)"
    by (auto simp: is_svd_of_def min_def)
  from g s have mg: "matmul (transpose_t u1) u1 = Inr uu" by (simp add: gram_of_def thenR_def)
  then have suu: "size0 uu = ?n" "size1 uu = ?n"
    using su1 by (auto simp: matmul_def transpose_t_def)
  from gu1 mg have id: "to_rows uu = identity_rows ?n" by (simp add: rows_of_def)
  from svd_contract_atD [OF cu] obtain u d v
    where s2: "svd uu = Inr (u, d, v)" and i2: "is_svd_of uu (u, d, v)" by blast
  from correlations_of_identity_gram [OF i2 id suu] have d: "d = replicate ?n (Fin 1)" .
  from i2 suu have su: "size0 u = ?n" "size1 u = ?n" and sv: "size0 v = ?n" "size1 v = ?n"
    and gu: "rows_of (matmul (transpose_t u) u) = Some (identity_rows ?n)"
    by (auto simp: is_svd_of_def)
  txt \<open>the directions \<open>a\<close> and the projection, as the code computes them\<close>
  have sd: "size0 (diag_t (reciprocal s1)) = ?n" "size1 (diag_t (reciprocal s1)) = ?n"
    by (simp_all add: diag_t_def reciprocal_def ls)
  from matmul_ok [of v1 "diag_t (reciprocal s1)"] sv1 sd obtain m1
    where m1: "matmul v1 (diag_t (reciprocal s1)) = Inr m1" "size0 m1 = ?n" "size1 m1 = ?n"
    by auto
  from matmul_ok [of m1 u] m1 su obtain a
    where a: "matmul m1 u = Inr a" "size0 a = ?n" "size1 a = ?n" by auto
  from matmul_ok [of m1 v] m1 sv obtain b where b: "matmul m1 v = Inr b" by auto
  have cca: "underscore_cca svd x x m = Inr (a, b, d)"
    using r mth by (simp add: underscore_cca_def z svd_cca_def s mg s2 thenR_def m1 a b)
  with p have xa: "matmul x a = Inr xa" by (simp add: projection_of_def thenR_def)
  txt \<open>the real matrices\<close>
  define X where "X i j = rval (elem x i j)" for i j
  define Xc where "Xc i j = rval (elem xc i j)" for i j
  define U1 where "U1 i j = rval (elem u1 i j)" for i j
  define V1 where "V1 i j = rval (elem v1 i j)" for i j
  define U where "U i j = rval (elem u i j)" for i j
  define sv where "sv l = rval (s1 ! l)" for l
  define A where "A i j = (\<Sum>l<?n. V1 i l / sv l * U l j)" for i j
  have ev1: "elem v1 i l = Fin (V1 i l)" if "i < ?n" "l < ?n" for i l
    unfolding V1_def using orthonormal_columns_finite [OF gv1 sv1(2), of i l] that sv1
    by (simp add: is_fin_rval [symmetric])
  have eu: "elem u i l = Fin (U i l)" if "i < ?n" "l < ?n" for i l
    unfolding U_def using orthonormal_columns_finite [OF gu su(2), of i l] that su
    by (simp add: is_fin_rval [symmetric])
  have es: "s1 ! l = Fin (sv l)" "sv l \<noteq> 0" if "l < ?n" for l
  proof -
    from fin that ls show e: "s1 ! l = Fin (sv l)"
      unfolding sv_def by (auto simp: list_all_length is_fin_rval [symmetric])
    from nz that ls have "s1 ! l \<noteq> Fin 0" by (auto simp: list_all_length)
    with e show "sv l \<noteq> 0" by auto
  qed
  have exc: "elem xc i j = Fin (\<Sum>l<?n. U1 i l * sv l * V1 j l)" if "i < ?m" "j < ?n" for i j
    using svd_product_entries [OF i1 rc, of i j] that sxc by (simp add: U1_def sv_def V1_def)
  have zc: "elem xc i j = fsub (elem x i j)
      (fdiv (fsum (map (\<lambda>r. elem x r j) [0..<?m])) (Fin (real ?m)))" for i j
    using z by (auto simp: zero_mean_def)
  have ex: "elem x i j = Fin (X i j)" if "i < ?m" "j < ?n" for i j
  proof -
    from exc [OF that] zc [of i j] have "is_fin (elem x i j)"
      using fsub_Fin_D by metis
    then show ?thesis unfolding X_def by (simp add: is_fin_rval [symmetric])
  qed
  have centred: "Xc i j = X i j - (\<Sum>r<?m. X r j) / real ?m" if i: "i < ?m" and j: "j < ?n" for i j
  proof -
    have "fsum (map (\<lambda>r. elem x r j) [0..<?m]) = Fin (\<Sum>r<?m. X r j)"
      by (rule fsum_upt_Fin) (simp add: ex j)
    then have "elem xc i j = Fin (X i j - (\<Sum>r<?m. X r j) / real ?m)"
      using m0 by (simp add: zc ex [OF i j] fsub_def)
    then show ?thesis by (simp add: Xc_def)
  qed
  have prod: "(\<Sum>l<?n. U1 i l * sv l * V1 j l) = Xc i j" if "i < ?m" "j < ?n" for i j
    using exc [OF that] by (simp add: Xc_def)
  have U1U1: "(\<Sum>l<?m. U1 l a' * U1 l b') = (if a' = b' then 1 else 0)" if "a' < ?n" "b' < ?n" for a' b'
    using gram_real [OF gu1 su1(2) that] by (simp add: U1_def su1)
  have V1V1: "(\<Sum>l<?n. V1 l a' * V1 l b') = (if a' = b' then 1 else 0)" if "a' < ?n" "b' < ?n" for a' b'
    using gram_real [OF gv1 sv1(2) that] by (simp add: V1_def sv1)
  have UU: "(\<Sum>l<?n. U l a' * U l b') = (if a' = b' then 1 else 0)" if "a' < ?n" "b' < ?n" for a' b'
    using gram_real [OF gu su(2) that] by (simp add: U_def su)
  have em1: "elem m1 i q = Fin (V1 i q / sv q)" if i: "i < ?n" and q: "q < ?n" for i q
  proof -
    have "fmul (elem v1 i p) (elem (diag_t (reciprocal s1)) p q)
          = Fin (if p = q then V1 i p / sv p else 0)" if p: "p < ?n" for p
      using ev1 [OF i p] es [OF p] p ls
      by (cases "p = q") (simp_all add: diag_t_def reciprocal_def)
    from fsum_upt_Fin [of ?n "\<lambda>p. fmul (elem v1 i p) (elem (diag_t (reciprocal s1)) p q)", OF this]
    show ?thesis using q by (simp add: matmul_InrD(4) [OF m1(1)] sv1 sum.delta)
  qed
  have ea: "elem a i j = Fin (A i j)" if i: "i < ?n" and j: "j < ?n" for i j
  proof -
    have "fmul (elem m1 i l) (elem u l j) = Fin (V1 i l / sv l * U l j)" if "l < ?n" for l
      using em1 [OF i that] eu [OF that j] by simp
    from fsum_upt_Fin [of ?n "\<lambda>l. fmul (elem m1 i l) (elem u l j)", OF this]
    show ?thesis by (simp add: matmul_InrD(4) [OF a(1)] m1 A_def)
  qed
  have sxa: "size0 xa = ?m" "size1 xa = ?n"
    using matmul_InrD(2,3) [OF xa] a by simp_all
  have exa: "elem xa i j = Fin (\<Sum>l<?n. X i l * A l j)" if i: "i < ?m" and j: "j < ?n" for i j
  proof -
    have "fmul (elem x i l) (elem a l j) = Fin (X i l * A l j)" if "l < ?n" for l
      using ex [OF i that] ea [OF that j] by simp
    from fsum_upt_Fin [of ?n "\<lambda>l. fmul (elem x i l) (elem a l j)", OF this]
    show ?thesis by (simp add: matmul_InrD(4) [OF xa])
  qed
  have f: "finite_tensor xa"
    unfolding finite_tensor_iff using exa sxa by simp
  have "sum_list (weight_sums xa) \<noteq> 0"
  proof
    assume t: "sum_list (weight_sums xa) = 0"
    have w: "sum_list (map (\<lambda>i. \<bar>rval (elem xa i j)\<bar>) [0..<?m]) = 0" if j: "j < ?n" for j
    proof (rule sum_list_zero_entries
        [of "\<lambda>j. sum_list (map (\<lambda>i. \<bar>rval (elem xa i j)\<bar>) [0..<?m])" ?n j])
      show "(\<Sum>j\<leftarrow>[0..<?n]. sum_list (map (\<lambda>i. \<bar>rval (elem xa i j)\<bar>) [0..<?m])) = 0"
        using t sxa by (simp add: weight_sums_def)
      show "0 \<le> sum_list (map (\<lambda>i. \<bar>rval (elem xa i j')\<bar>) [0..<?m])" for j'
        by (rule sum_list_nonneg) auto
      show "j < ?n" by (rule j)
    qed
    have zero: "(\<Sum>l<?n. X i l * A l j) = 0" if i: "i < ?m" and j: "j < ?n" for i j
    proof -
      from sum_list_zero_entries [of "\<lambda>i. \<bar>rval (elem xa i j)\<bar>" ?m i] w [OF j] i
      have "\<bar>rval (elem xa i j)\<bar> = 0" by simp
      with exa [OF i j] show ?thesis by simp
    qed
    have "\<exists>i<?m. \<exists>j<?n. (\<Sum>l<?n. X i l * A l j) \<noteq> 0"
      by (rule projection_not_zero [of ?n ?m Xc X U1 sv V1 U A,
            OF n m0 centred prod U1U1 V1V1 UU es(2)]) (simp_all add: A_def)
    with zero show False by blast
  qed
  with f show ?thesis by simp
qed

lemma pwcca_self_zero:
  assumes n: "0 < size1 x" and r: "size1 x \<le> size0 x"
    and z: "zero_mean x 0 = Inr xc" and cc: "svd_contract_at svd xc"
    and sv: "singular_values_of svd xc = Inr s1" and nz: "list_all (\<lambda>s. s \<noteq> Fin 0) s1"
    and g: "gram_of svd xc = Inr uu" and cu: "svd_contract_at svd uu"
    and m: "m = ''svd'' \<or> m = ''qr''"
  shows "pwcca_distance svd x x m = Inr (Fin 0)"
proof -
  from svd_contract_atD [OF cc] obtain u1 s1' v1
    where s: "svd xc = Inr (u1, s1', v1)" and i1: "is_svd_of xc (u1, s1', v1)" by blast
  from sv s have "s1' = s1" by (simp add: singular_values_of_def thenR_def)
  with s i1 have s': "svd xc = Inr (u1, s1, v1)" and i1': "is_svd_of xc (u1, s1, v1)" by simp_all
  from pwcca_self [OF r z cc g cu m] obtain xa
    where p: "projection_of x (underscore_cca svd x x m) = Inr xa"
      and e: "(pwcca_distance svd x x m = Inr (Fin 0))
               = (finite_tensor xa \<and> sum_list (weight_sums xa) \<noteq> 0)" by blast
  from self_projection_weights [OF n r z s' i1' nz g cu m p] e show ?thesis by simp
qed

section \<open>Evaluating the distances on the concrete inputs\<close>

lemmas reduction_simps = svd_reduction_def retained_num_def energy_ratio_def cumsum_def
  default_accept_rate_def

lemma retained_10_2: "retained_num [Fin 10, Fin 2] default_accept_rate = Fin 1"
  by (simp add: reduction_simps)

lemma retained_5: "retained_num [Fin 5] default_accept_rate = Fin 0"
  by (simp add: reduction_simps)

lemma elems_x_two:
  "elem x_two 0 0 = Fin 7" "elem x_two 0 (Suc 0) = Fin 1"
  "elem x_two (Suc 0) 0 = Fin 7" "elem x_two (Suc 0) (Suc 0) = Fin (-1)"
  "elem x_two 2 0 = Fin 1" "elem x_two 2 (Suc 0) = Fin 1"
  "elem x_two 3 0 = Fin 1" "elem x_two 3 (Suc 0) = Fin (-1)"
  by (simp_all add: x_two_def of_rows_def)

lemma elems_identity_2:
  "elem identity_2 0 0 = Fin 1" "elem identity_2 0 (Suc 0) = Fin 0"
  "elem identity_2 (Suc 0) 0 = Fin 0" "elem identity_2 (Suc 0) (Suc 0) = Fin 1"
  by (simp_all add: identity_2_def of_rows_def)

lemma svd_x_single: "svd_table x_single = Inr (of_rows 2 1 [[3/5], [4/5]], [Fin 5], identity_1)"
  by (simp add: svd_table_def svd_table_2_1_def x_single_def of_rows_def to_rows_def upt_2)

lemma shape_x_single: "size0 x_single = 2" "size1 x_single = 1"
  by (simp_all add: x_single_def of_rows_def)

lemma reduce_x_single: "\<exists>t. svd_reduction svd_table x_single default_accept_rate = Inr t \<and> size0 t = 2 \<and> size1 t = 0"
  by (simp add: svd_reduction_def svd_x_single thenR_def retained_5 matmul_def slice_cols_def
      shape_identity_1 shape_x_single)

lemma cca_2_0:
  assumes "size0 t = 2" "size1 t = 0"
  shows "\<exists>a b. underscore_cca svd_table t t ''svd'' = Inr (a, b, [])"
  using assms
  by (simp add: underscore_cca_def svd_cca_def svd_table_def zero_mean_def thenR_def matmul_def
      transpose_t_def of_rows_def empty_0_0_def diag_t_def reciprocal_def)

lemma svcca_x_single: "svcca_distance svd_table x_single x_single ''svd'' = Inr NaN"
proof -
  from reduce_x_single obtain t where t: "svd_reduction svd_table x_single default_accept_rate = Inr t"
    "size0 t = 2" "size1 t = 0" by blast
  from cca_2_0 [OF t(2,3)] obtain a b where "underscore_cca svd_table t t ''svd'' = Inr (a, b, [])"
    by blast
  with t show ?thesis by (simp add: svcca_distance_def thenR_def fsub_def)
qed

lemmas svd_simps = svd_table_def svd_table_4_2_def svd_table_4_1_def svd_table_2_2_def
  svd_table_2_1_def svd_table_1_1_def outside_table_def

lemmas op_simps = zero_mean_def thenR_def matmul_def transpose_t_def diag_t_def reciprocal_def
  to_rows_def of_rows_def identity_1_def identity_2_def upt_2 upt_4 fsub_def

lemma elems_y_two:
  "elem y_two 0 0 = Fin 7" "elem y_two 0 (Suc 0) = Fin 1"
  "elem y_two (Suc 0) 0 = Fin 1" "elem y_two (Suc 0) (Suc 0) = Fin 1"
  "elem y_two 2 0 = Fin 7" "elem y_two 2 (Suc 0) = Fin (-1)"
  "elem y_two 3 0 = Fin 1" "elem y_two 3 (Suc 0) = Fin (-1)"
  by (simp_all add: y_two_def of_rows_def)

lemma reduce_x_two:
  "svd_reduction svd_table x_two default_accept_rate = Inr x_two_reduced"
  "size0 x_two_reduced = 4" "size1 x_two_reduced = 1"
  "elem x_two_reduced 0 0 = Fin 7" "elem x_two_reduced (Suc 0) 0 = Fin 7"
  "elem x_two_reduced 2 0 = Fin 1" "elem x_two_reduced 3 0 = Fin 1"
proof -
  have "\<exists>t. svd_reduction svd_table x_two default_accept_rate = Inr t \<and> size0 t = 4 \<and> size1 t = 1
          \<and> elem t 0 0 = Fin 7 \<and> elem t (Suc 0) 0 = Fin 7 \<and> elem t 2 0 = Fin 1 \<and> elem t 3 0 = Fin 1"
    by (simp add: svd_reduction_def svd_x_two thenR_def retained_10_2 matmul_def slice_cols_def
        shape_identity_2 shape_x_two upt_2 elems_x_two elems_identity_2)
  then show "svd_reduction svd_table x_two default_accept_rate = Inr x_two_reduced"
    "size0 x_two_reduced = 4" "size1 x_two_reduced = 1"
    "elem x_two_reduced 0 0 = Fin 7" "elem x_two_reduced (Suc 0) 0 = Fin 7"
    "elem x_two_reduced 2 0 = Fin 1" "elem x_two_reduced 3 0 = Fin 1"
    by (auto simp: x_two_reduced_def)
qed

lemma reduce_y_two:
  "svd_reduction svd_table y_two default_accept_rate = Inr y_two_reduced"
  "size0 y_two_reduced = 4" "size1 y_two_reduced = 1"
  "elem y_two_reduced 0 0 = Fin 7" "elem y_two_reduced (Suc 0) 0 = Fin 1"
  "elem y_two_reduced 2 0 = Fin 7" "elem y_two_reduced 3 0 = Fin 1"
proof -
  have "\<exists>t. svd_reduction svd_table y_two default_accept_rate = Inr t \<and> size0 t = 4 \<and> size1 t = 1
          \<and> elem t 0 0 = Fin 7 \<and> elem t (Suc 0) 0 = Fin 1 \<and> elem t 2 0 = Fin 7 \<and> elem t 3 0 = Fin 1"
    by (simp add: svd_reduction_def svd_y_two thenR_def retained_10_2 matmul_def slice_cols_def
        shape_identity_2 shape_y_two upt_2 elems_y_two elems_identity_2)
  then show "svd_reduction svd_table y_two default_accept_rate = Inr y_two_reduced"
    "size0 y_two_reduced = 4" "size1 y_two_reduced = 1"
    "elem y_two_reduced 0 0 = Fin 7" "elem y_two_reduced (Suc 0) 0 = Fin 1"
    "elem y_two_reduced 2 0 = Fin 7" "elem y_two_reduced 3 0 = Fin 1"
    by (auto simp: y_two_reduced_def)
qed

lemma correlations_reduced_src:
  "correlations_of (cca svd_table x_two_reduced y_two_reduced ''svd'') = Inr [Fin 0]"
  "correlations_of (cca svd_table x_two_reduced x_two_reduced ''svd'') = Inr [Fin 1]"
  by (simp_all add: correlations_of_def cca_def svd_cca_def svd_simps op_simps
      reduce_x_two reduce_y_two)

lemma correlations_reduced:
  "correlations_of (underscore_cca svd_table x_two_reduced y_two_reduced ''svd'') = Inr [Fin 0]"
  "correlations_of (underscore_cca svd_table x_two_reduced x_two_reduced ''svd'') = Inr [Fin 1]"
  by (simp_all add: correlations_of_def underscore_cca_def svd_cca_def svd_simps op_simps
      reduce_x_two reduce_y_two)

lemma shape_x_constant: "size0 x_constant = 2" "size1 x_constant = 1"
  "elem x_constant 0 0 = Fin 1" "elem x_constant (Suc 0) 0 = Fin 1"
  by (simp_all add: x_constant_def of_rows_def)

lemma pwcca_x_constant: "pwcca_distance svd_table x_constant x_constant ''svd'' = Inr NaN"
  by (simp add: pwcca_distance_def underscore_cca_def svd_cca_def svd_simps op_simps
      shape_x_constant abs_column_sums_def normalise_def dot_def inf_of_sign_def)

lemma project_x_two:
  "projection_of x_two (underscore_cca svd_table x_two x_two ''svd'') = Inr x_two_projected"
  "size0 x_two_projected = 4" "size1 x_two_projected = 2"
  "to_rows x_two_projected = map (map Fin) [[7/6, 1/2], [7/6, -1/2], [1/6, 1/2], [1/6, -1/2]]"
  "correlations_of (underscore_cca svd_table x_two x_two ''svd'') = Inr [Fin 1, Fin 1]"
proof -
  have "\<exists>t. projection_of x_two (underscore_cca svd_table x_two x_two ''svd'') = Inr t
          \<and> size0 t = 4 \<and> size1 t = 2
          \<and> to_rows t = map (map Fin) [[7/6, 1/2], [7/6, -1/2], [1/6, 1/2], [1/6, -1/2]]"
    by (simp add: projection_of_def underscore_cca_def svd_cca_def svd_simps op_simps
        shape_x_two elems_x_two)
  then show "projection_of x_two (underscore_cca svd_table x_two x_two ''svd'') = Inr x_two_projected"
    "size0 x_two_projected = 4" "size1 x_two_projected = 2"
    "to_rows x_two_projected = map (map Fin) [[7/6, 1/2], [7/6, -1/2], [1/6, 1/2], [1/6, -1/2]]"
    by (auto simp: x_two_projected_def)
  show "correlations_of (underscore_cca svd_table x_two x_two ''svd'') = Inr [Fin 1, Fin 1]"
    by (simp add: correlations_of_def underscore_cca_def svd_cca_def svd_simps op_simps
        shape_x_two elems_x_two)
qed


lemma finite_tensor_rows:
  "to_rows t = map (map Fin) rs \<Longrightarrow> finite_tensor t"
proof -
  assume a: "to_rows t = map (map Fin) rs"
  have "finite_tensor t = list_all (list_all is_fin) (to_rows t)"
    by (simp add: finite_tensor_def to_rows_def list_all_iff)
  then show ?thesis unfolding a by (simp add: list_all_iff)
qed

lemma elems_x_two_projected:
  "elem x_two_projected 0 0 = Fin (7/6)" "elem x_two_projected 0 (Suc 0) = Fin (1/2)"
  "elem x_two_projected (Suc 0) 0 = Fin (7/6)" "elem x_two_projected (Suc 0) (Suc 0) = Fin (-1/2)"
  "elem x_two_projected 2 0 = Fin (1/6)" "elem x_two_projected 2 (Suc 0) = Fin (1/2)"
  "elem x_two_projected 3 0 = Fin (1/6)" "elem x_two_projected 3 (Suc 0) = Fin (-1/2)"
  using project_x_two(4) by (simp_all add: to_rows_def project_x_two(2,3) upt_4 upt_2)

lemma weights_x_two_projected: "weight_sums x_two_projected = [8/3, 2]"
  by (simp add: weight_sums_def project_x_two(2,3) upt_4 upt_2 elems_x_two_projected)

text \<open>Every entry of \<open>svd_table\<close> is a singular value decomposition of its input.\<close>

lemma svd_table_sound:
  "list_all (\<lambda>t. case svd_table t of Inl e \<Rightarrow> False | Inr r \<Rightarrow> is_svd_of t r) table_inputs"
  by (simp add: table_inputs_def is_svd_of_def rows_of_def identity_rows_def svd_simps op_simps
      x_two_def y_two_def x_single_def empty_0_0_def)

lemmas contract_simps = svd_contract_at_def is_svd_of_def rows_of_def identity_rows_def gram_of_def

lemma contract_x_two: "svd_contract_at svd_table x_two"
  by (simp add: contract_simps svd_simps op_simps shape_x_two elems_x_two)

lemma centre_x_two_reduced:
  "zero_mean x_two_reduced 0 = Inr x_two_reduced_centred"
  "size0 x_two_reduced_centred = 4" "size1 x_two_reduced_centred = 1"
  "elem x_two_reduced_centred 0 0 = Fin 3" "elem x_two_reduced_centred (Suc 0) 0 = Fin 3"
  "elem x_two_reduced_centred 2 0 = Fin (-3)" "elem x_two_reduced_centred 3 0 = Fin (-3)"
proof -
  have "\<exists>t. zero_mean x_two_reduced 0 = Inr t \<and> size0 t = 4 \<and> size1 t = 1
          \<and> elem t 0 0 = Fin 3 \<and> elem t (Suc 0) 0 = Fin 3
          \<and> elem t 2 0 = Fin (-3) \<and> elem t 3 0 = Fin (-3)"
    by (simp add: zero_mean_def fsub_def upt_4 reduce_x_two)
  then show "zero_mean x_two_reduced 0 = Inr x_two_reduced_centred"
    "size0 x_two_reduced_centred = 4" "size1 x_two_reduced_centred = 1"
    "elem x_two_reduced_centred 0 0 = Fin 3" "elem x_two_reduced_centred (Suc 0) 0 = Fin 3"
    "elem x_two_reduced_centred 2 0 = Fin (-3)" "elem x_two_reduced_centred 3 0 = Fin (-3)"
    by (auto simp: x_two_reduced_centred_def the_result_def)
qed

lemma contract_x_two_reduced_centred: "svd_contract_at svd_table x_two_reduced_centred"
  by (simp add: contract_simps svd_simps op_simps centre_x_two_reduced)

lemma gram_x_two_reduced:
  "gram_of svd_table x_two_reduced_centred = Inr x_two_reduced_gram"
  "size0 x_two_reduced_gram = 1" "size1 x_two_reduced_gram = 1"
  "elem x_two_reduced_gram 0 0 = Fin 1"
proof -
  have "\<exists>t. gram_of svd_table x_two_reduced_centred = Inr t \<and> size0 t = 1 \<and> size1 t = 1
          \<and> elem t 0 0 = Fin 1"
    by (simp add: gram_of_def svd_simps op_simps centre_x_two_reduced)
  then show "gram_of svd_table x_two_reduced_centred = Inr x_two_reduced_gram"
    "size0 x_two_reduced_gram = 1" "size1 x_two_reduced_gram = 1"
    "elem x_two_reduced_gram 0 0 = Fin 1"
    by (auto simp: x_two_reduced_gram_def the_result_def)
qed

lemma contract_x_two_reduced_gram: "svd_contract_at svd_table x_two_reduced_gram"
  by (simp add: contract_simps svd_simps op_simps gram_x_two_reduced)

lemma centre_x_two:
  "zero_mean x_two 0 = Inr x_two_centred"
  "size0 x_two_centred = 4" "size1 x_two_centred = 2"
  "to_rows x_two_centred = map (map Fin) [[3, 1], [3, -1], [-3, 1], [-3, -1]]"
proof -
  have "\<exists>t. zero_mean x_two 0 = Inr t \<and> size0 t = 4 \<and> size1 t = 2
          \<and> to_rows t = map (map Fin) [[3, 1], [3, -1], [-3, 1], [-3, -1]]"
    by (simp add: zero_mean_def to_rows_def fsub_def upt_4 upt_2 shape_x_two elems_x_two)
  then show "zero_mean x_two 0 = Inr x_two_centred"
    "size0 x_two_centred = 4" "size1 x_two_centred = 2"
    "to_rows x_two_centred = map (map Fin) [[3, 1], [3, -1], [-3, 1], [-3, -1]]"
    by (auto simp: x_two_centred_def the_result_def)
qed

lemma elems_x_two_centred:
  "elem x_two_centred 0 0 = Fin 3" "elem x_two_centred 0 (Suc 0) = Fin 1"
  "elem x_two_centred (Suc 0) 0 = Fin 3" "elem x_two_centred (Suc 0) (Suc 0) = Fin (-1)"
  "elem x_two_centred 2 0 = Fin (-3)" "elem x_two_centred 2 (Suc 0) = Fin 1"
  "elem x_two_centred 3 0 = Fin (-3)" "elem x_two_centred 3 (Suc 0) = Fin (-1)"
  using centre_x_two(4) by (simp_all add: to_rows_def centre_x_two(2,3) upt_4 upt_2)

lemma contract_x_two_centred: "svd_contract_at svd_table x_two_centred"
  by (simp add: contract_simps svd_simps op_simps centre_x_two(2,3) elems_x_two_centred)

lemma singular_values_x_two_centred:
  "singular_values_of svd_table x_two_centred = Inr [Fin 6, Fin 2]"
  by (simp add: singular_values_of_def svd_simps op_simps centre_x_two(2,3) elems_x_two_centred)

lemma gram_x_two:
  "gram_of svd_table x_two_centred = Inr x_two_gram"
  "size0 x_two_gram = 2" "size1 x_two_gram = 2"
  "to_rows x_two_gram = map (map Fin) [[1, 0], [0, 1]]"
proof -
  have "\<exists>t. gram_of svd_table x_two_centred = Inr t \<and> size0 t = 2 \<and> size1 t = 2
          \<and> to_rows t = map (map Fin) [[1, 0], [0, 1]]"
    by (simp add: gram_of_def svd_simps op_simps centre_x_two(2,3) elems_x_two_centred)
  then show "gram_of svd_table x_two_centred = Inr x_two_gram"
    "size0 x_two_gram = 2" "size1 x_two_gram = 2"
    "to_rows x_two_gram = map (map Fin) [[1, 0], [0, 1]]"
    by (auto simp: x_two_gram_def the_result_def)
qed

lemma elems_x_two_gram:
  "elem x_two_gram 0 0 = Fin 1" "elem x_two_gram 0 (Suc 0) = Fin 0"
  "elem x_two_gram (Suc 0) 0 = Fin 0" "elem x_two_gram (Suc 0) (Suc 0) = Fin 1"
  using gram_x_two(4) by (simp_all add: to_rows_def gram_x_two(2,3) upt_2)

lemma contract_x_two_gram: "svd_contract_at svd_table x_two_gram"
  by (simp add: contract_simps svd_simps op_simps gram_x_two(2,3) elems_x_two_gram)







section \<open>The two distances\<close>

text \<open>
  C1, as amended.  Let \<open>xr\<close> and \<open>yr\<close> be the reductions of \<open>x\<close> and \<open>y\<close>.
  The package's \<open>svcca_distance\<close> returns one minus the sum of the canonical
  correlations of \<open>xr\<close> and \<open>yr\<close> over the smaller of their column counts (a division
  by zero when that is 0).  The \<open>svcca_distance\<close> of \<^verbatim>\<open>src/cca.py\<close> divides by the
  number of strictly positive correlations; it returns the same value when every
  correlation is strictly positive and there are as many of them as the smaller column
  count.
\<close>

theorem svcca_divisor:
  assumes "svd_reduction svd x default_accept_rate = Inr xr"
    and "svd_reduction svd y default_accept_rate = Inr yr"
  shows "(\<forall>diag. correlations_of (underscore_cca svd xr yr method) = Inr diag \<longrightarrow>
            svcca_distance svd x y method = Inr (claimed_svcca diag (size1 xr) (size1 yr)))
       \<and> (\<forall>diag. correlations_of (cca svd xr yr method) = Inr diag
               \<and> (\<forall>d\<in>set diag. fgt d (Fin 0))
               \<and> length diag = min (size1 xr) (size1 yr) \<longrightarrow>
            svcca_distance_src svd x y method = Inr (claimed_svcca diag (size1 xr) (size1 yr)))"
proof (intro conjI allI impI)
  fix diag
  assume "correlations_of (underscore_cca svd xr yr method) = Inr diag"
  then obtain a b where "underscore_cca svd xr yr method = Inr (a, b, diag)"
    using correlations_of_Inr by blast
  then show "svcca_distance svd x y method = Inr (claimed_svcca diag (size1 xr) (size1 yr))"
    by (simp add: svcca_distance_def assms thenR_def Let_def claimed_svcca_def)
next
  fix diag
  assume a: "correlations_of (cca svd xr yr method) = Inr diag
               \<and> (\<forall>d\<in>set diag. fgt d (Fin 0))
               \<and> length diag = min (size1 xr) (size1 yr)"
  then obtain a b where r: "cca svd xr yr method = Inr (a, b, diag)"
    using correlations_of_Inr by blast
  from a have "filter (\<lambda>d. fgt d (Fin 0)) diag = diag" by simp
  then have "length (filter (\<lambda>d. fgt d (Fin 0)) diag) = min (size1 xr) (size1 yr)"
    using a by simp
  then show "svcca_distance_src svd x y method = Inr (claimed_svcca diag (size1 xr) (size1 yr))"
    by (simp add: svcca_distance_src_def assms r thenR_def claimed_svcca_def)
qed

theorem svcca_divisor_witness:
  "svd_reduction svd_table x_two default_accept_rate = Inr x_two_reduced
   \<and> svd_reduction svd_table y_two default_accept_rate = Inr y_two_reduced
   \<and> correlations_of (underscore_cca svd_table x_two_reduced y_two_reduced ''svd'') = Inr [Fin 0]
   \<and> svcca_distance svd_table x_two y_two ''svd'' = Inr (Fin 1)
   \<and> correlations_of (cca svd_table x_two_reduced x_two_reduced ''svd'') = Inr [Fin 1]
   \<and> fgt (Fin 1) (Fin 0)
   \<and> length [Fin 1] = min (size1 x_two_reduced) (size1 x_two_reduced)
   \<and> svcca_distance_src svd_table x_two x_two ''svd'' = Inr (Fin 0)"
proof -
  have p: "\<forall>d\<in>set [Fin 1]. fgt d (Fin 0)" by (simp add: fgt_def)
  have l: "length [Fin 1] = min (size1 x_two_reduced) (size1 x_two_reduced)"
    by (simp add: reduce_x_two)
  from svcca_divisor [of svd_table x_two x_two_reduced y_two y_two_reduced "''svd''",
      OF reduce_x_two(1) reduce_y_two(1)] correlations_reduced(1)
  have 1: "svcca_distance svd_table x_two y_two ''svd'' = Inr (Fin 1)"
    by (simp add: claimed_svcca_def reduce_x_two reduce_y_two fsub_def)
  from svcca_divisor [of svd_table x_two x_two_reduced x_two x_two_reduced "''svd''",
      OF reduce_x_two(1) reduce_x_two(1)] correlations_reduced_src(2) p l
  have 2: "svcca_distance_src svd_table x_two x_two ''svd'' = Inr (Fin 0)"
    by (simp add: claimed_svcca_def reduce_x_two fsub_def)
  from 1 2 l reduce_x_two(1) reduce_y_two(1) correlations_reduced(1) correlations_reduced_src(2)
  show ?thesis by (simp add: fgt_def)
qed

text \<open>
  For \<^verbatim>\<open>src/cca.py\<close> the formula with the smaller column count does not hold in
  general: the reductions of \<open>x_two\<close> and
  \<open>y_two\<close> have one column each and the canonical correlation 0, so that formula
  gives 1, and the code divides 0 by the number 0 of positive correlations.
\<close>

theorem svcca_src_counterexample:
  "svcca_distance_src svd_table x_two y_two ''svd'' = Inr NaN
   \<and> svcca_spec cca svd_table x_two y_two ''svd'' = Inr (Fin 1)"
proof -
  from correlations_reduced_src(1) obtain a b
    where "cca svd_table x_two_reduced y_two_reduced ''svd'' = Inr (a, b, [Fin 0])"
    using correlations_of_Inr by blast
  then show ?thesis
    by (simp add: svcca_distance_src_def svcca_spec_def claimed_svcca_def reduce_x_two reduce_y_two
        thenR_def fgt_def fsub_def)
qed

text \<open>
  C5, as amended.  Assume that the decomposition honours its contract (it returns a
  singular value decomposition) at the matrices the code decomposes.  Then the SVCCA
  distance of \<open>x\<close> with itself is 0 whenever the reduction keeps at least one column.
  For a matrix with at least as many samples as features, the PWCCA distance of \<open>x\<close>
  with itself is 0 exactly when the projection \<open>x @ A\<close> is finite and the sums of the
  absolute values of its columns do not add up to zero; this is the case, and the
  distance is 0, whenever the matrix has at least one feature and no singular value of
  the centred matrix is zero.  Arithmetic is exact.
\<close>

theorem self_distance_zero:
  assumes "method = ''svd'' \<or> method = ''qr''"
  shows "(\<forall>xr xc uu. svd_contract_at svd x
            \<and> svd_reduction svd x default_accept_rate = Inr xr \<and> 0 < size1 xr
            \<and> zero_mean xr 0 = Inr xc \<and> svd_contract_at svd xc
            \<and> gram_of svd xc = Inr uu \<and> svd_contract_at svd uu \<longrightarrow>
          svcca_distance svd x x method = Inr (Fin 0))
       \<and> (\<forall>xc uu. size1 x \<le> size0 x
            \<and> zero_mean x 0 = Inr xc \<and> svd_contract_at svd xc
            \<and> gram_of svd xc = Inr uu \<and> svd_contract_at svd uu \<longrightarrow>
          (\<exists>xa. projection_of x (underscore_cca svd x x method) = Inr xa
             \<and> (pwcca_distance svd x x method = Inr (Fin 0))
                 = (finite_tensor xa \<and> sum_list (weight_sums xa) \<noteq> 0)))
       \<and> (\<forall>xc uu ss. 0 < size1 x \<and> size1 x \<le> size0 x
            \<and> zero_mean x 0 = Inr xc \<and> svd_contract_at svd xc
            \<and> singular_values_of svd xc = Inr ss \<and> list_all (\<lambda>s. s \<noteq> Fin 0) ss
            \<and> gram_of svd xc = Inr uu \<and> svd_contract_at svd uu \<longrightarrow>
          pwcca_distance svd x x method = Inr (Fin 0))"
  using svcca_self [of svd x _ _ _ "method"] pwcca_self [of x _ svd _ "method"]
    pwcca_self_zero [of x _ svd _ _ "method"] assms
  by blast

theorem self_distance_zero_witness:
  "svd_contract_at svd_table x_two
   \<and> svd_reduction svd_table x_two default_accept_rate = Inr x_two_reduced
   \<and> 0 < size1 x_two_reduced
   \<and> zero_mean x_two_reduced 0 = Inr x_two_reduced_centred
   \<and> svd_contract_at svd_table x_two_reduced_centred
   \<and> gram_of svd_table x_two_reduced_centred = Inr x_two_reduced_gram
   \<and> svd_contract_at svd_table x_two_reduced_gram
   \<and> svcca_distance svd_table x_two x_two ''svd'' = Inr (Fin 0)
   \<and> 0 < size1 x_two
   \<and> size1 x_two \<le> size0 x_two
   \<and> zero_mean x_two 0 = Inr x_two_centred
   \<and> svd_contract_at svd_table x_two_centred
   \<and> singular_values_of svd_table x_two_centred = Inr [Fin 6, Fin 2]
   \<and> list_all (\<lambda>s. s \<noteq> Fin 0) [Fin 6, Fin 2]
   \<and> gram_of svd_table x_two_centred = Inr x_two_gram
   \<and> svd_contract_at svd_table x_two_gram
   \<and> projection_of x_two (underscore_cca svd_table x_two x_two ''svd'') = Inr x_two_projected
   \<and> finite_tensor x_two_projected
   \<and> sum_list (weight_sums x_two_projected) \<noteq> 0
   \<and> pwcca_distance svd_table x_two x_two ''svd'' = Inr (Fin 0)"
proof -
  have m: "''svd'' = ''svd'' \<or> ''svd'' = ''qr''" by simp
  have k: "0 < size1 x_two_reduced" by (simp add: reduce_x_two)
  have n: "0 < size1 x_two" by (simp add: shape_x_two)
  have r: "size1 x_two \<le> size0 x_two" by (simp add: shape_x_two)
  have z: "list_all (\<lambda>s. s \<noteq> Fin 0) [Fin 6, Fin 2]" by simp
  have f: "finite_tensor x_two_projected" by (rule finite_tensor_rows [OF project_x_two(4)])
  have w: "sum_list (weight_sums x_two_projected) \<noteq> 0" by (simp add: weights_x_two_projected)
  note t = self_distance_zero [of "''svd''" svd_table x_two, OF m]
  from t contract_x_two reduce_x_two(1) k centre_x_two_reduced(1)
    contract_x_two_reduced_centred gram_x_two_reduced(1) contract_x_two_reduced_gram
  have 1: "svcca_distance svd_table x_two x_two ''svd'' = Inr (Fin 0)" by blast
  from t n r centre_x_two(1) contract_x_two_centred singular_values_x_two_centred z
    gram_x_two(1) contract_x_two_gram
  have 2: "pwcca_distance svd_table x_two x_two ''svd'' = Inr (Fin 0)" by blast
  from 1 2 contract_x_two reduce_x_two(1) k centre_x_two_reduced(1)
    contract_x_two_reduced_centred gram_x_two_reduced(1) contract_x_two_reduced_gram
    n r centre_x_two(1) contract_x_two_centred singular_values_x_two_centred z
    gram_x_two(1) contract_x_two_gram project_x_two(1) f w
  show ?thesis by simp
qed

text \<open>
  Without these provisos the self-distance is not 0, also on matrices with at least as
  many samples as features.  For the single column (3, 4) the only
  cumulative ratio is 1, no column is kept, and the SVCCA distance is \<open>1 - 0 / 0\<close>.
  For the constant column (1, 1) the centred matrix is zero, the reciprocal of its
  singular value is infinite, and the PWCCA distance is NaN.
\<close>

theorem self_distance_counterexample:
  "svcca_distance svd_table x_single x_single ''svd'' = Inr NaN
   \<and> pwcca_distance svd_table x_constant x_constant ''svd'' = Inr NaN"
  using svcca_x_single pwcca_x_constant by simp




end
